theory Spec2Isabelle
  imports Complex_Main
begin

section \<open>Data model shared by both training scripts\<close>

text \<open>
  Node ids are natural numbers. An edge-index tensor of shape \<open>(2, E)\<close> is the list of its
  \<open>E\<close> columns: \<open>map fst\<close> is row 0 (the sources), \<open>map snd\<close> is row 1 (the
  destinations) and \<open>length\<close> is \<open>size(1)\<close>.
\<close>

type_synonym node = nat
type_synonym edge_index = "(node \<times> node) list"

datatype error = NotImplementedError | IndexError | KeyError | ValueError | AttributeError

text \<open>A Python float that may be \<open>nan\<close>: \<open>np.mean\<close> of an empty array is \<open>nan\<close>.\<close>

datatype pyfloat = NaN | Fl real

datatype split = Val | Test

text \<open>
  A tensor is its (opaque) numerical content together with the autograd flag: the tensor
  carries gradient history exactly when \<open>requires_grad\<close> holds. Both scripts leave
  autograd enabled throughout (\<open>model.eval()\<close> does not disable it and there is no
  \<open>torch.no_grad()\<close>), and the encoders have trainable parameters, so what an encoder
  returns has the flag set; \<open>.detach()\<close> is the only operation that clears it.
\<close>

datatype 'h tensor = Tensor (data: 'h) (requires_grad: bool)

definition detach :: "'h tensor \<Rightarrow> 'h tensor" where
  "detach t = Tensor (data t) False"

text \<open>The dictionary \<open>data['train_data']\<close>; \<open>td_edge_attr\<close> is \<open>'edge_attr' in train_data\<close>.\<close>

record train_data =
  td_num_nodes :: nat
  td_time_length :: nat
  td_edge_index :: "edge_index list"
  td_edge_attr :: bool

text \<open>
  The dictionaries \<open>data['val_data']\<close> and \<open>data['test_data']\<close> of the EvolveGCN-O script.
  Both inner dictionaries are keyed by the snapshot timestamp; the association list keeps
  the iteration order of \<open>.keys()\<close>.
\<close>

record eval_data =
  ed_edge_index :: "(int \<times> edge_index) list"
  ed_original_edges :: "(int \<times> edge_index) list"
  ed_edge_attr :: bool

definition np_mean :: "real list \<Rightarrow> pyfloat" where
  "np_mean xs = (if xs = [] then NaN else Fl (sum_list xs / real (length xs)))"

text \<open>\<open>snapshot_list[i]\<close> for a non-negative index.\<close>

definition snapshot_at :: "edge_index list \<Rightarrow> nat \<Rightarrow> error + edge_index" where
  "snapshot_at xs i = (if i < length xs then Inr (xs ! i) else Inl IndexError)"

text \<open>\<open>h[idx]\<close> raises unless every index addresses one of the \<open>n\<close> rows of \<open>h\<close>.\<close>

definition in_range :: "nat \<Rightarrow> node list \<Rightarrow> bool" where
  "in_range n idx = list_all (\<lambda>i. i < n) idx"

text \<open>
  The guard that precedes every encoder call (lines 125-128, 133-136, 212-215, 282-285 of
  the EvolveGCN-O script; 77-80, 86-89, 133-136 of the GC-LSTM script): without an
  \<open>'edge_attr'\<close> entry the weights are \<open>torch.ones(idx.size(1), 1)\<close>, with one the script
  raises.
\<close>

definition edge_weights :: "bool \<Rightarrow> edge_index \<Rightarrow> error + real list" where
  "edge_weights has_attr idx =
     (if \<not> has_attr then Inr (replicate (length idx) 1) else Inl NotImplementedError)"

section \<open>The EvolveGCN-O script\<close>

text \<open>
  The tensor kernels and library objects the script drives are parameters. The world
  \<open>'w\<close> is everything they mutate: module parameters, the evolving GCN weight, the random
  generator, the autograd graph and the optimizer.
  \<^item> \<open>model_fwd w idx ea\<close> is \<open>model(node_feat, idx, ea)\<close>;
  \<^item> \<open>link_pred w h a b\<close> is \<open>link_pred(h[a], h[b])\<close>;
  \<^item> \<open>criterion p t\<close> is \<open>criterion(p, t * ones_like(p))\<close>;
  \<^item> \<open>randint w lo hi n\<close> is \<open>torch.randint(lo, hi, (n,))\<close>;
  \<^item> \<open>query_batch sp s d t\<close> is \<open>neg_sampler.query_batch([s], [d], [t], split_mode=sp)\<close>;
  \<^item> \<open>evaluator y\<close> is \<open>evaluator.eval\<close> on the prediction vector \<open>y\<close>, whose first entry is
    the positive score.
\<close>

record ('w, 'h, 'p) externals =
  model_fwd :: "'w \<Rightarrow> edge_index \<Rightarrow> real list \<Rightarrow> 'h \<times> 'w"
  link_pred :: "'w \<Rightarrow> 'h \<Rightarrow> node list \<Rightarrow> node list \<Rightarrow> 'p \<times> 'w"
  criterion :: "'p \<Rightarrow> real \<Rightarrow> real"
  randint :: "'w \<Rightarrow> nat \<Rightarrow> nat \<Rightarrow> nat \<Rightarrow> node list \<times> 'w"
  backward :: "'w \<Rightarrow> real \<Rightarrow> 'w"
  opt_step :: "'w \<Rightarrow> 'w"
  zero_grad :: "'w \<Rightarrow> 'w"
  query_batch :: "split \<Rightarrow> node \<Rightarrow> node \<Rightarrow> int \<Rightarrow> node list list"
  evaluator :: "'p \<Rightarrow> real"

subsection \<open>Training epoch (lines 113-156)\<close>

text \<open>One entry per completed iteration of the snapshot loop: what went into the encoder,
  what came out, and what the decoder was asked to score.\<close>

record ('h, 'p) train_step =
  st_idx :: nat
  st_fed :: edge_index
  st_weight :: "real list"
  st_h :: "'h tensor"
  st_pos :: edge_index
  st_neg_dst :: "node list"
  st_pos_out :: 'p
  st_neg_out :: 'p
  st_loss :: real

text \<open>The variables of the epoch; \<open>ts_steps\<close> and \<open>ts_opt\<close> are the trace: the iterations
  done, and the loss of every \<open>backward(); optimizer.step()\<close> executed.\<close>

record ('w, 'h, 'p) train_state =
  ts_world :: 'w
  ts_h :: "'h tensor option"
  ts_total_loss :: real
  ts_steps :: "('h, 'p) train_step list"
  ts_opt :: "real list"

text \<open>Lines 121-137: pick the edges to feed, build their weights, advance the encoder.
  The result is the fed edges, their weights, the new embedding and the new world.\<close>

definition egcno_train_feed ::
  "('w, 'h, 'p) externals \<Rightarrow> train_data \<Rightarrow> 'w \<Rightarrow> nat
     \<Rightarrow> error + edge_index \<times> real list \<times> 'h \<times> 'w" where
  "egcno_train_feed X D w t =
     (case (if t = 0 then snapshot_at (td_edge_index D) t
            else snapshot_at (td_edge_index D) (t - 1)) of
        Inl e \<Rightarrow> Inl e
      | Inr fed \<Rightarrow>
     (case edge_weights (td_edge_attr D) fed of
        Inl e \<Rightarrow> Inl e
      | Inr ea \<Rightarrow>
     (case model_fwd X w fed ea of (hv, w1) \<Rightarrow> Inr (fed, ea, hv, w1))))"

text \<open>Lines 139-153: score the snapshot's own edges and one random destination per edge,
  and add both criterion terms to \<open>total_loss\<close>.\<close>

definition egcno_train_snapshot ::
  "('w, 'h, 'p) externals \<Rightarrow> train_data \<Rightarrow> nat \<Rightarrow> ('w, 'h, 'p) train_state \<Rightarrow> nat
     \<Rightarrow> error + ('w, 'h, 'p) train_state" where
  "egcno_train_snapshot X D N s t =
     (case egcno_train_feed X D (ts_world s) t of
        Inl e \<Rightarrow> Inl e
      | Inr (fed, ea, hv, w1) \<Rightarrow>
     (case snapshot_at (td_edge_index D) t of
        Inl e \<Rightarrow> Inl e
      | Inr pos \<Rightarrow>
     (case randint X w1 0 N (length pos) of (neg_dst, w2) \<Rightarrow>
        if \<not> (in_range N (map fst pos) \<and> in_range N (map snd pos)) then Inl IndexError
        else (case link_pred X w2 hv (map fst pos) (map snd pos) of (pos_out, w3) \<Rightarrow>
        if \<not> in_range N neg_dst then Inl IndexError
        else (case link_pred X w3 hv (map fst pos) neg_dst of (neg_out, w4) \<Rightarrow>
          Inr (s\<lparr>ts_world := w4,
                 ts_h := Some (Tensor hv True),
                 ts_total_loss := ts_total_loss s + criterion X pos_out 1 + criterion X neg_out 0,
                 ts_steps := ts_steps s @
                   [\<lparr>st_idx = t, st_fed = fed, st_weight = ea, st_h = Tensor hv True,
                     st_pos = pos, st_neg_dst = neg_dst, st_pos_out = pos_out,
                     st_neg_out = neg_out,
                     st_loss = criterion X pos_out 1 + criterion X neg_out 0\<rparr>]\<rparr>))))))"

fun egcno_train_loop ::
  "('w, 'h, 'p) externals \<Rightarrow> train_data \<Rightarrow> nat \<Rightarrow> ('w, 'h, 'p) train_state \<Rightarrow> nat list
     \<Rightarrow> error + ('w, 'h, 'p) train_state" where
  "egcno_train_loop X D N s [] = Inr s"
| "egcno_train_loop X D N s (t # ts) =
     (case egcno_train_snapshot X D N s t of
        Inl e \<Rightarrow> Inl e
      | Inr s' \<Rightarrow> egcno_train_loop X D N s' ts)"

text \<open>Line 85: the embedding matrix has one more row than the data set has nodes.\<close>

definition num_nodes_of :: "train_data \<Rightarrow> nat" where
  "num_nodes_of D = td_num_nodes D + 1"

text \<open>With no snapshot \<open>total_loss\<close> is still the integer 0, which has no \<open>backward\<close>.\<close>

definition egcno_train_epoch ::
  "('w, 'h, 'p) externals \<Rightarrow> train_data \<Rightarrow> 'w \<Rightarrow> error + ('w, 'h, 'p) train_state" where
  "egcno_train_epoch X D w =
     (case egcno_train_loop X D (num_nodes_of D)
             \<lparr>ts_world = zero_grad X w, ts_h = None, ts_total_loss = 0, ts_steps = [], ts_opt = []\<rparr>
             [0 ..< td_time_length D] of
        Inl e \<Rightarrow> Inl e
      | Inr s \<Rightarrow>
          if td_time_length D = 0 then Inl AttributeError
          else Inr (s\<lparr>ts_world := opt_step X (backward X (ts_world s) (ts_total_loss s)),
                      ts_opt := ts_opt s @ [ts_total_loss s]\<rparr>))"

subsection \<open>Evaluation over one split (lines 169-221 and 236-290)\<close>

text \<open>
  The validation block and the test block are the same code up to the split mode and one
  call: the validation block detaches the advanced state (line 216), the test block does
  not (line 286). \<open>es_steps\<close> is the trace: per snapshot, the state its positives were
  scored with, and the edges and weights the encoder was then advanced on.
\<close>

record 'h eval_step =
  ev_key :: int
  ev_h :: "'h tensor"
  ev_fed :: edge_index
  ev_weight :: "real list"

record ('w, 'h) eval_state =
  es_world :: 'w
  es_h :: "'h tensor"
  es_perf :: "real list"
  es_steps :: "'h eval_step list"

fun score_batches ::
  "('w, 'h, 'p) externals \<Rightarrow> nat \<Rightarrow> 'h \<Rightarrow> node \<Rightarrow> node \<Rightarrow> 'w \<times> real list \<Rightarrow> node list list
     \<Rightarrow> error + 'w \<times> real list" where
  "score_batches X N h src dst acc [] = Inr acc"
| "score_batches X N h src dst acc (nb # nbs) =
     (if \<not> (in_range N (replicate (length nb + 1) src) \<and> in_range N (dst # nb))
      then Inl IndexError
      else (case link_pred X (fst acc) h (replicate (length nb + 1) src) (dst # nb) of
              (y, w') \<Rightarrow> score_batches X N h src dst (w', snd acc @ [evaluator X y]) nbs))"

fun score_edges ::
  "('w, 'h, 'p) externals \<Rightarrow> split \<Rightarrow> nat \<Rightarrow> 'h \<Rightarrow> int \<Rightarrow> 'w \<times> real list \<Rightarrow> edge_index
     \<Rightarrow> error + 'w \<times> real list" where
  "score_edges X sp N h t acc [] = Inr acc"
| "score_edges X sp N h t acc (e # es) =
     (case score_batches X N h (fst e) (snd e) acc (query_batch X sp (fst e) (snd e) t) of
        Inl err \<Rightarrow> Inl err
      | Inr acc' \<Rightarrow> score_edges X sp N h t acc' es)"

text \<open>Lines 209-216 and 279-286: advance the state on the snapshot just scored.\<close>

definition egcno_eval_advance ::
  "('w, 'h, 'p) externals \<Rightarrow> split \<Rightarrow> eval_data \<Rightarrow> int \<Rightarrow> 'w
     \<Rightarrow> error + edge_index \<times> real list \<times> 'h tensor \<times> 'w" where
  "egcno_eval_advance X sp D k w =
     (case map_of (ed_edge_index D) k of
        None \<Rightarrow> Inl KeyError
      | Some prev \<Rightarrow>
     (case edge_weights (ed_edge_attr D) prev of
        Inl e \<Rightarrow> Inl e
      | Inr ea \<Rightarrow>
     (case model_fwd X w prev ea of (hv, w2) \<Rightarrow>
        Inr (prev, ea,
             (case sp of Val \<Rightarrow> detach (Tensor hv True) | Test \<Rightarrow> Tensor hv True), w2))))"

fun egcno_eval_loop ::
  "('w, 'h, 'p) externals \<Rightarrow> split \<Rightarrow> eval_data \<Rightarrow> nat \<Rightarrow> ('w, 'h) eval_state \<Rightarrow> int list
     \<Rightarrow> error + ('w, 'h) eval_state" where
  "egcno_eval_loop X sp D N s [] = Inr s"
| "egcno_eval_loop X sp D N s (k # ks) =
     (case map_of (ed_original_edges D) k of
        None \<Rightarrow> Inl KeyError
      | Some pos \<Rightarrow>
     (case score_edges X sp N (data (es_h s)) k (es_world s, es_perf s) pos of
        Inl e \<Rightarrow> Inl e
      | Inr acc \<Rightarrow>
     (case egcno_eval_advance X sp D k (fst acc) of
        Inl e \<Rightarrow> Inl e
      | Inr (prev, ea, h', w2) \<Rightarrow>
        egcno_eval_loop X sp D N
          \<lparr>es_world = w2, es_h = h', es_perf = snd acc,
           es_steps = es_steps s @
             [\<lparr>ev_key = k, ev_h = es_h s, ev_fed = prev, ev_weight = ea\<rparr>]\<rparr> ks)))"

text \<open>\<open>min\<close> of the keys of an empty dictionary raises; then the carried state is
  detached (lines 178 and 246) and the snapshots are walked in key order.\<close>

definition egcno_eval_split ::
  "('w, 'h, 'p) externals \<Rightarrow> split \<Rightarrow> eval_data \<Rightarrow> nat \<Rightarrow> 'w \<Rightarrow> 'h tensor
     \<Rightarrow> error + ('w, 'h) eval_state" where
  "egcno_eval_split X sp D N w h =
     (if ed_edge_index D = [] then Inl ValueError
      else egcno_eval_loop X sp D N
             \<lparr>es_world = w, es_h = detach h, es_perf = [], es_steps = []\<rparr>
             (map fst (ed_edge_index D)))"

subsection \<open>One run (lines 106-308)\<close>

record run_record =
  best_val :: real
  best_test :: pyfloat
  best_epoch :: nat

record config =
  cfg_max_epoch :: nat
  cfg_patience :: int

record dataset =
  train_split :: train_data
  val_split :: eval_data
  test_split :: eval_data

text \<open>The trace of one epoch: the validation metric, the run record on entry and on exit,
  the splits that were evaluated, and whether the epoch left the loop by \<open>break\<close>.\<close>

record epoch_entry =
  ee_epoch :: nat
  ee_val :: pyfloat
  ee_before :: run_record
  ee_after :: run_record
  ee_splits :: "split list"
  ee_stop :: bool

text \<open>Lines 296-308, reached with the new best validation metric \<open>v\<close> and the test
  metric \<open>tm\<close>.\<close>

definition egcno_patience :: "int \<Rightarrow> nat \<Rightarrow> run_record \<Rightarrow> real \<Rightarrow> pyfloat \<Rightarrow> bool \<times> run_record" where
  "egcno_patience patience epoch r v tm =
     (if int epoch - int (best_epoch r) \<ge> patience \<and> epoch > 1
      then (True, \<lparr>best_val = v, best_test = tm, best_epoch = epoch\<rparr>)
      else (False, \<lparr>best_val = v, best_test = tm, best_epoch = epoch\<rparr>))"

definition egcno_epoch ::
  "('w, 'h, 'p) externals \<Rightarrow> config \<Rightarrow> dataset \<Rightarrow> run_record \<Rightarrow> 'w \<Rightarrow> nat
     \<Rightarrow> error + epoch_entry \<times> 'w" where
  "egcno_epoch X cfg ds r w epoch =
     (case egcno_train_epoch X (train_split ds) w of
        Inl e \<Rightarrow> Inl e
      | Inr tr \<Rightarrow>
     (case ts_h tr of
        None \<Rightarrow> Inl AttributeError
      | Some h \<Rightarrow>
     (case egcno_eval_split X Val (val_split ds) (num_nodes_of (train_split ds))
             (ts_world tr) h of
        Inl e \<Rightarrow> Inl e
      | Inr ev \<Rightarrow>
     (case np_mean (es_perf ev) of
        NaN \<Rightarrow>
          Inr (\<lparr>ee_epoch = epoch, ee_val = NaN, ee_before = r, ee_after = r,
                ee_splits = [Val], ee_stop = False\<rparr>, es_world ev)
      | Fl v \<Rightarrow>
          if v > best_val r then
            (case egcno_eval_split X Test (test_split ds) (num_nodes_of (train_split ds))
                    (es_world ev) (es_h ev) of
               Inl e \<Rightarrow> Inl e
             | Inr te \<Rightarrow>
                 Inr (\<lparr>ee_epoch = epoch, ee_val = Fl v, ee_before = r,
                       ee_after = snd (egcno_patience (cfg_patience cfg) epoch r v
                                        (np_mean (es_perf te))),
                       ee_splits = [Val, Test],
                       ee_stop = fst (egcno_patience (cfg_patience cfg) epoch r v
                                       (np_mean (es_perf te)))\<rparr>, es_world te))
          else
            Inr (\<lparr>ee_epoch = epoch, ee_val = Fl v, ee_before = r, ee_after = r,
                  ee_splits = [Val], ee_stop = False\<rparr>, es_world ev)))))"

record 'w run_state =
  rs_world :: 'w
  rs_record :: run_record
  rs_history :: "epoch_entry list"

fun egcno_run_loop ::
  "('w, 'h, 'p) externals \<Rightarrow> config \<Rightarrow> dataset \<Rightarrow> 'w run_state \<Rightarrow> nat list
     \<Rightarrow> error + 'w run_state" where
  "egcno_run_loop X cfg ds s [] = Inr s"
| "egcno_run_loop X cfg ds s (epoch # es) =
     (case egcno_epoch X cfg ds (rs_record s) (rs_world s) epoch of
        Inl e \<Rightarrow> Inl e
      | Inr res \<Rightarrow>
          if ee_stop (fst res)
          then Inr \<lparr>rs_world = snd res, rs_record = ee_after (fst res),
                    rs_history = rs_history s @ [fst res]\<rparr>
          else egcno_run_loop X cfg ds
                 \<lparr>rs_world = snd res, rs_record = ee_after (fst res),
                  rs_history = rs_history s @ [fst res]\<rparr> es)"

text \<open>A run starts from the world left by the initialisation of lines 91-104, with the
  run record reset (lines 106-108).\<close>

definition egcno_run ::
  "('w, 'h, 'p) externals \<Rightarrow> config \<Rightarrow> dataset \<Rightarrow> 'w \<Rightarrow> error + 'w run_state" where
  "egcno_run X cfg ds w =
     egcno_run_loop X cfg ds
       \<lparr>rs_world = w, rs_record = \<lparr>best_val = 0, best_test = Fl 0, best_epoch = 0\<rparr>,
        rs_history = []\<rparr>
       [0 ..< cfg_max_epoch cfg]"

section \<open>The GC-LSTM script\<close>

text \<open>
  Its collaborators: \<open>gc_model w idx ea hc\<close> is \<open>model(node_feat, idx, ea, h, c)\<close> (\<open>hc\<close> is
  \<open>None\<close> before the first snapshot), \<open>gc_negative_sampling w pos n m\<close> is
  \<open>negative_sampling(pos, num_nodes=n, num_neg_samples=m)\<close>, and the sampler is only
  ever queried with \<open>split_mode='val'\<close>.
\<close>

record ('w, 'h, 'p) gc_externals =
  gc_model :: "'w \<Rightarrow> edge_index \<Rightarrow> real list \<Rightarrow> ('h \<times> 'h) option \<Rightarrow> ('h \<times> 'h) \<times> 'w"
  gc_link_pred :: "'w \<Rightarrow> 'h \<Rightarrow> node list \<Rightarrow> node list \<Rightarrow> 'p \<times> 'w"
  gc_criterion :: "'p \<Rightarrow> real \<Rightarrow> real"
  gc_negative_sampling :: "'w \<Rightarrow> edge_index \<Rightarrow> nat \<Rightarrow> nat \<Rightarrow> edge_index \<times> 'w"
  gc_backward :: "'w \<Rightarrow> real \<Rightarrow> 'w"
  gc_opt_step :: "'w \<Rightarrow> 'w"
  gc_zero_grad :: "'w \<Rightarrow> 'w"
  gc_query_batch :: "node \<Rightarrow> node \<Rightarrow> int \<Rightarrow> node list list"
  gc_evaluator :: "'p \<Rightarrow> real"

text \<open>The validation dictionary as this script reads it: \<open>original_edges[t]\<close> is walked
  row by row (\<open>pos_index[i][0]\<close>, \<open>pos_index[i][1]\<close>), so it is kept as its list of rows.\<close>

record gc_eval_data =
  gd_edge_index :: "(int \<times> edge_index) list"
  gd_original_edges :: "(int \<times> node list list) list"
  gd_edge_attr :: bool

subsection \<open>Training epoch (lines 64-103)\<close>

record ('h, 'p) gc_step =
  gs_idx :: nat
  gs_current :: edge_index
  gs_fed :: edge_index
  gs_weight :: "real list"
  gs_h :: "'h tensor"
  gs_pos :: edge_index
  gs_neg :: edge_index
  gs_pos_out :: 'p
  gs_neg_out :: 'p
  gs_loss_before :: real
  gs_loss :: real

record ('w, 'h, 'p) gc_train_state =
  gt_world :: 'w
  gt_hc :: "('h tensor \<times> 'h tensor) option"
  gt_loss :: real
  gt_total_loss :: real
  gt_steps :: "('h, 'p) gc_step list"
  gt_opt :: "real list"

text \<open>Lines 74-90: \<open>edge_index\<close> becomes the snapshot itself at index 0 and the previous
  snapshot afterwards; the encoder is advanced on it from the carried \<open>h, c\<close>.\<close>

definition gclstm_train_feed ::
  "('w, 'h, 'p) gc_externals \<Rightarrow> train_data \<Rightarrow> 'w \<Rightarrow> ('h tensor \<times> 'h tensor) option
     \<Rightarrow> edge_index \<Rightarrow> nat \<Rightarrow> error + edge_index \<times> real list \<times> ('h \<times> 'h) \<times> 'w" where
  "gclstm_train_feed X D w hc pos t =
     (case (if t = 0 then Inr pos else snapshot_at (td_edge_index D) (t - 1)) of
        Inl e \<Rightarrow> Inl e
      | Inr edge_idx \<Rightarrow>
     (case edge_weights (td_edge_attr D) edge_idx of
        Inl e \<Rightarrow> Inl e
      | Inr ea \<Rightarrow>
     (case gc_model X w edge_idx ea (map_option (\<lambda>hc. (data (fst hc), data (snd hc))) hc) of
        (hcv, w2) \<Rightarrow> Inr (edge_idx, ea, hcv, w2))))"

text \<open>Lines 70-72 and 92-97. The decoder scores \<open>edge_index\<close>, the edges just fed, as the
  positives; \<open>total_loss\<close> takes the running \<open>loss\<close> before this snapshot's terms join it.\<close>

definition gclstm_train_snapshot ::
  "('w, 'h, 'p) gc_externals \<Rightarrow> train_data \<Rightarrow> nat \<Rightarrow> ('w, 'h, 'p) gc_train_state \<Rightarrow> nat
     \<Rightarrow> error + ('w, 'h, 'p) gc_train_state" where
  "gclstm_train_snapshot X D N s t =
     (case snapshot_at (td_edge_index D) t of
        Inl e \<Rightarrow> Inl e
      | Inr pos \<Rightarrow>
     (case gc_negative_sampling X (gt_world s) pos N (length pos * 1) of (neg, w1) \<Rightarrow>
     (case gclstm_train_feed X D w1 (gt_hc s) pos t of
        Inl e \<Rightarrow> Inl e
      | Inr (edge_idx, ea, hcv, w2) \<Rightarrow>
        if \<not> (in_range N (map fst edge_idx) \<and> in_range N (map snd edge_idx))
        then Inl IndexError
        else (case gc_link_pred X w2 (fst hcv) (map fst edge_idx) (map snd edge_idx) of
                (pos_out, w3) \<Rightarrow>
        if \<not> (in_range N (map fst neg) \<and> in_range N (map snd neg)) then Inl IndexError
        else (case gc_link_pred X w3 (fst hcv) (map fst neg) (map snd neg) of (neg_out, w4) \<Rightarrow>
          Inr (s\<lparr>gt_world := w4,
                 gt_hc := Some (Tensor (fst hcv) True, Tensor (snd hcv) True),
                 gt_total_loss := gt_total_loss s + gt_loss s * real (length edge_idx),
                 gt_loss := gt_loss s + gc_criterion X pos_out 1 + gc_criterion X neg_out 0,
                 gt_steps := gt_steps s @
                   [\<lparr>gs_idx = t, gs_current = pos, gs_fed = edge_idx, gs_weight = ea,
                     gs_h = Tensor (fst hcv) True, gs_pos = edge_idx, gs_neg = neg,
                     gs_pos_out = pos_out, gs_neg_out = neg_out,
                     gs_loss_before = gt_loss s,
                     gs_loss = gc_criterion X pos_out 1 + gc_criterion X neg_out 0\<rparr>]\<rparr>))))))"

fun gclstm_train_loop ::
  "('w, 'h, 'p) gc_externals \<Rightarrow> train_data \<Rightarrow> nat \<Rightarrow> ('w, 'h, 'p) gc_train_state \<Rightarrow> nat list
     \<Rightarrow> error + ('w, 'h, 'p) gc_train_state" where
  "gclstm_train_loop X D N s [] = Inr s"
| "gclstm_train_loop X D N s (t # ts) =
     (case gclstm_train_snapshot X D N s t of
        Inl e \<Rightarrow> Inl e
      | Inr s' \<Rightarrow> gclstm_train_loop X D N s' ts)"

text \<open>With no snapshot \<open>loss\<close> is still the integer 0, which has no \<open>backward\<close>.\<close>

definition gclstm_train_epoch ::
  "('w, 'h, 'p) gc_externals \<Rightarrow> train_data \<Rightarrow> 'w \<Rightarrow> error + ('w, 'h, 'p) gc_train_state" where
  "gclstm_train_epoch X D w =
     (case gclstm_train_loop X D (num_nodes_of D)
             \<lparr>gt_world = w, gt_hc = None, gt_loss = 0, gt_total_loss = 0, gt_steps = [],
              gt_opt = []\<rparr>
             [0 ..< td_time_length D] of
        Inl e \<Rightarrow> Inl e
      | Inr s \<Rightarrow>
          if td_time_length D = 0 then Inl AttributeError
          else Inr (s\<lparr>gt_world :=
                        gc_zero_grad X (gc_opt_step X (gc_backward X (gt_world s) (gt_loss s))),
                      gt_opt := gt_opt s @ [gt_loss s]\<rparr>))"

text \<open>The figure printed at line 103.\<close>

definition gclstm_reported_loss :: "train_data \<Rightarrow> ('w, 'h, 'p) gc_train_state \<Rightarrow> real" where
  "gclstm_reported_loss D s = gt_total_loss s / real (num_nodes_of D)"

subsection \<open>Validation (lines 107-164)\<close>

record ('w, 'h) gc_eval_state =
  gv_world :: 'w
  gv_hc :: "'h tensor \<times> 'h tensor"
  gv_perf :: "real list"
  gv_steps :: "(int \<times> 'h tensor \<times> 'h tensor) list"

fun gc_score_batches ::
  "('w, 'h, 'p) gc_externals \<Rightarrow> nat \<Rightarrow> 'h \<Rightarrow> node \<Rightarrow> node \<Rightarrow> 'w \<times> real list \<Rightarrow> node list list
     \<Rightarrow> error + 'w \<times> real list" where
  "gc_score_batches X N h src dst acc [] = Inr acc"
| "gc_score_batches X N h src dst acc (nb # nbs) =
     (if \<not> (in_range N (replicate (length nb + 1) src) \<and> in_range N (dst # nb))
      then Inl IndexError
      else (case gc_link_pred X (fst acc) h (replicate (length nb + 1) src) (dst # nb) of
              (y, w') \<Rightarrow>
                gc_score_batches X N h src dst (w', snd acc @ [gc_evaluator X y]) nbs))"

fun gc_score_rows ::
  "('w, 'h, 'p) gc_externals \<Rightarrow> nat \<Rightarrow> 'h \<Rightarrow> int \<Rightarrow> 'w \<times> real list \<Rightarrow> node list list
     \<Rightarrow> error + 'w \<times> real list" where
  "gc_score_rows X N h t acc [] = Inr acc"
| "gc_score_rows X N h t acc (row # rows) =
     (if length row < 2 then Inl IndexError
      else (case gc_score_batches X N h (row ! 0) (row ! 1) acc
                   (gc_query_batch X (row ! 0) (row ! 1) t) of
              Inl err \<Rightarrow> Inl err
            | Inr acc' \<Rightarrow> gc_score_rows X N h t acc' rows))"

text \<open>Lines 129-138: past the first timestamp the state is advanced on the previous
  snapshot before scoring, and the result is kept as the encoder returns it.\<close>

definition gclstm_val_advance ::
  "('w, 'h, 'p) gc_externals \<Rightarrow> gc_eval_data \<Rightarrow> int \<Rightarrow> int \<Rightarrow> 'w \<Rightarrow> 'h tensor \<times> 'h tensor
     \<Rightarrow> error + 'w \<times> 'h tensor \<times> 'h tensor" where
  "gclstm_val_advance X D ts_min k w hc =
     (if k > ts_min then
        (case map_of (gd_edge_index D) (k - 1) of
           None \<Rightarrow> Inl KeyError
         | Some prev \<Rightarrow>
        (case edge_weights (gd_edge_attr D) prev of
           Inl e \<Rightarrow> Inl e
         | Inr ea \<Rightarrow>
        (case gc_model X w prev ea (Some (data (fst hc), data (snd hc))) of
           ((hv, cv), w1) \<Rightarrow> Inr (w1, Tensor hv True, Tensor cv True))))
      else Inr (w, hc))"

fun gclstm_val_loop ::
  "('w, 'h, 'p) gc_externals \<Rightarrow> gc_eval_data \<Rightarrow> nat \<Rightarrow> int \<Rightarrow> ('w, 'h) gc_eval_state \<Rightarrow> int list
     \<Rightarrow> error + ('w, 'h) gc_eval_state" where
  "gclstm_val_loop X D N ts_min s [] = Inr s"
| "gclstm_val_loop X D N ts_min s (k # ks) =
     (case map_of (gd_original_edges D) k of
        None \<Rightarrow> Inl KeyError
      | Some pos \<Rightarrow>
     (case gclstm_val_advance X D ts_min k (gv_world s) (gv_hc s) of
        Inl e \<Rightarrow> Inl e
      | Inr adv \<Rightarrow>
     (case gc_score_rows X N (data (fst (snd adv))) k (fst adv, gv_perf s) pos of
        Inl e \<Rightarrow> Inl e
      | Inr acc \<Rightarrow>
          gclstm_val_loop X D N ts_min
            \<lparr>gv_world = fst acc, gv_hc = snd adv, gv_perf = snd acc,
             gv_steps = gv_steps s @ [(k, snd adv)]\<rparr> ks)))"

definition gclstm_validate ::
  "('w, 'h, 'p) gc_externals \<Rightarrow> gc_eval_data \<Rightarrow> nat \<Rightarrow> 'w \<Rightarrow> 'h tensor \<times> 'h tensor
     \<Rightarrow> error + ('w, 'h) gc_eval_state" where
  "gclstm_validate X D N w hc =
     (if gd_edge_index D = [] then Inl ValueError
      else gclstm_val_loop X D N (min_list (map fst (gd_edge_index D)))
             \<lparr>gv_world = w, gv_hc = (detach (fst hc), detach (snd hc)), gv_perf = [],
              gv_steps = []\<rparr>
             (map fst (gd_edge_index D)))"

subsection \<open>The epoch loop (lines 63-166)\<close>

record gc_dataset =
  gc_train_split :: train_data
  gc_val_split :: gc_eval_data

record gc_entry =
  ge_epoch :: nat
  ge_val :: pyfloat
  ge_splits :: "split list"

definition gclstm_epoch ::
  "('w, 'h, 'p) gc_externals \<Rightarrow> gc_dataset \<Rightarrow> 'w \<Rightarrow> nat \<Rightarrow> error + gc_entry \<times> 'w" where
  "gclstm_epoch X ds w epoch =
     (case gclstm_train_epoch X (gc_train_split ds) w of
        Inl e \<Rightarrow> Inl e
      | Inr tr \<Rightarrow>
     (case gt_hc tr of
        None \<Rightarrow> Inl AttributeError
      | Some hc \<Rightarrow>
     (case gclstm_validate X (gc_val_split ds) (num_nodes_of (gc_train_split ds))
             (gt_world tr) hc of
        Inl e \<Rightarrow> Inl e
      | Inr ev \<Rightarrow>
          Inr (\<lparr>ge_epoch = epoch, ge_val = np_mean (gv_perf ev), ge_splits = [Val]\<rparr>,
               gv_world ev))))"

fun gclstm_run_loop ::
  "('w, 'h, 'p) gc_externals \<Rightarrow> gc_dataset \<Rightarrow> 'w \<times> gc_entry list \<Rightarrow> nat list
     \<Rightarrow> error + 'w \<times> gc_entry list" where
  "gclstm_run_loop X ds s [] = Inr s"
| "gclstm_run_loop X ds s (epoch # es) =
     (case gclstm_epoch X ds (fst s) epoch of
        Inl e \<Rightarrow> Inl e
      | Inr res \<Rightarrow> gclstm_run_loop X ds (snd res, snd s @ [fst res]) es)"

text \<open>\<open>num_epochs = 200\<close> is fixed in the script (line 52).\<close>

definition gclstm_run ::
  "('w, 'h, 'p) gc_externals \<Rightarrow> gc_dataset \<Rightarrow> 'w \<Rightarrow> error + 'w \<times> gc_entry list" where
  "gclstm_run X ds w = gclstm_run_loop X ds (w, []) [0 ..< 200]"

section \<open>Trace predicates\<close>

text \<open>What one completed iteration of the EvolveGCN-O training loop has recorded.\<close>

definition egcno_step_ok ::
  "('w, 'h, 'p) externals \<Rightarrow> train_data \<Rightarrow> nat \<Rightarrow> ('h, 'p) train_step \<Rightarrow> bool" where
  "egcno_step_ok X D N e =
     (\<not> td_edge_attr D \<and>
      st_idx e < length (td_edge_index D) \<and>
      st_fed e = td_edge_index D ! (st_idx e - 1) \<and>
      st_pos e = td_edge_index D ! st_idx e \<and>
      st_weight e = replicate (length (st_fed e)) 1 \<and>
      requires_grad (st_h e) \<and>
      (\<exists>w. data (st_h e) = fst (model_fwd X w (st_fed e) (st_weight e))) \<and>
      (\<exists>w. st_neg_dst e = fst (randint X w 0 N (length (st_pos e)))) \<and>
      in_range N (map fst (st_pos e)) \<and> in_range N (map snd (st_pos e)) \<and>
      in_range N (st_neg_dst e) \<and>
      (\<exists>w. st_pos_out e = fst (link_pred X w (data (st_h e)) (map fst (st_pos e)) (map snd (st_pos e)))) \<and>
      (\<exists>w. st_neg_out e = fst (link_pred X w (data (st_h e)) (map fst (st_pos e)) (st_neg_dst e))) \<and>
      st_loss e = criterion X (st_pos_out e) 1 + criterion X (st_neg_out e) 0)"

text \<open>The same for the GC-LSTM training loop.\<close>

definition gclstm_step_ok ::
  "('w, 'h, 'p) gc_externals \<Rightarrow> train_data \<Rightarrow> nat \<Rightarrow> ('h, 'p) gc_step \<Rightarrow> bool" where
  "gclstm_step_ok X D N e =
     (\<not> td_edge_attr D \<and>
      gs_idx e < length (td_edge_index D) \<and>
      gs_current e = td_edge_index D ! gs_idx e \<and>
      gs_fed e = td_edge_index D ! (gs_idx e - 1) \<and>
      gs_pos e = gs_fed e \<and>
      gs_weight e = replicate (length (gs_fed e)) 1 \<and>
      requires_grad (gs_h e) \<and>
      (\<exists>w hc. data (gs_h e) = fst (fst (gc_model X w (gs_fed e) (gs_weight e) hc))) \<and>
      (\<exists>w. gs_neg e = fst (gc_negative_sampling X w (gs_current e) N (length (gs_current e)))) \<and>
      (\<exists>w. gs_pos_out e =
             fst (gc_link_pred X w (data (gs_h e)) (map fst (gs_pos e)) (map snd (gs_pos e)))) \<and>
      (\<exists>w. gs_neg_out e =
             fst (gc_link_pred X w (data (gs_h e)) (map fst (gs_neg e)) (map snd (gs_neg e)))) \<and>
      gs_loss e = gc_criterion X (gs_pos_out e) 1 + gc_criterion X (gs_neg_out e) 0)"

text \<open>An epoch improved when its validation metric is a number above the \<open>best_val\<close> it
  started with (line 234; a comparison with \<open>nan\<close> is false).\<close>

definition improved :: "epoch_entry \<Rightarrow> bool" where
  "improved e = (case ee_val e of NaN \<Rightarrow> False | Fl v \<Rightarrow> v > best_val (ee_before e))"

text \<open>What one epoch of a run, entered with record \<open>r\<close>, may leave in the history.\<close>

definition entry_ok :: "config \<Rightarrow> nat \<Rightarrow> run_record \<Rightarrow> epoch_entry \<Rightarrow> bool" where
  "entry_ok cfg epoch r en =
     (ee_epoch en = epoch \<and> ee_before en = r \<and>
      (if improved en
       then ee_splits en = [Val, Test] \<and> ee_val en = Fl (best_val (ee_after en)) \<and>
            best_epoch (ee_after en) = epoch \<and>
            ee_stop en = (cfg_patience cfg \<le> int epoch - int (best_epoch r) \<and> 1 < epoch)
       else ee_splits en = [Val] \<and> ee_after en = r \<and> \<not> ee_stop en))"

text \<open>The histories the epoch loop can produce from record \<open>r\<close> over the epochs \<open>es\<close>: one
  entry per epoch, each starting from the record the previous one left, ending early only
  after an entry that stopped.\<close>

fun history_ok :: "config \<Rightarrow> run_record \<Rightarrow> nat list \<Rightarrow> epoch_entry list \<Rightarrow> bool" where
  "history_ok cfg r [] new = (new = [])"
| "history_ok cfg r (ep # es) [] = False"
| "history_ok cfg r (ep # es) (en # new) =
     (entry_ok cfg ep r en \<and>
      (if ee_stop en then new = [] else history_ok cfg (ee_after en) es new))"

text \<open>The best validation metric seen over a list of metrics, starting from \<open>b\<close>;
  \<open>nan\<close> entries do not count.\<close>

definition best_seen :: "real \<Rightarrow> pyfloat list \<Rightarrow> real" where
  "best_seen b vs = foldl (\<lambda>b v. case v of NaN \<Rightarrow> b | Fl x \<Rightarrow> max b x) b vs"

text \<open>The epoch of the latest improvement in a history, \<open>b\<close> if there is none.\<close>

definition last_improvement :: "nat \<Rightarrow> epoch_entry list \<Rightarrow> nat" where
  "last_improvement b es = foldl (\<lambda>b e. if improved e then ee_epoch e else b) b es"

text \<open>One iteration of the EvolveGCN-O training loop, replayed from the world \<open>w\<close> it
  started in: the encoder call, then the draw at the world the encoder left, then the
  positive scores, then the negative scores on the drawn destinations.
  \<open>egcno_step_next\<close> is the world the iteration leaves; \<open>egcno_step_tied\<close> says that what
  the trace entry recorded are the results of exactly these calls.\<close>

definition egcno_step_next ::
  "('w, 'h, 'p) externals \<Rightarrow> nat \<Rightarrow> 'w \<Rightarrow> ('h, 'p) train_step \<Rightarrow> 'w" where
  "egcno_step_next X N w e =
     (case model_fwd X w (st_fed e) (st_weight e) of (hv, w1) \<Rightarrow>
     (case randint X w1 0 N (length (st_pos e)) of (nd, w2) \<Rightarrow>
     (case link_pred X w2 hv (map fst (st_pos e)) (map snd (st_pos e)) of (po, w3) \<Rightarrow>
        snd (link_pred X w3 hv (map fst (st_pos e)) nd))))"

definition egcno_step_tied ::
  "('w, 'h, 'p) externals \<Rightarrow> nat \<Rightarrow> 'w \<Rightarrow> ('h, 'p) train_step \<Rightarrow> bool" where
  "egcno_step_tied X N w e =
     (case model_fwd X w (st_fed e) (st_weight e) of (hv, w1) \<Rightarrow>
     (case randint X w1 0 N (length (st_pos e)) of (nd, w2) \<Rightarrow>
     (case link_pred X w2 hv (map fst (st_pos e)) (map snd (st_pos e)) of (po, w3) \<Rightarrow>
     (case link_pred X w3 hv (map fst (st_pos e)) nd of (no, w4) \<Rightarrow>
        st_h e = Tensor hv True \<and> st_neg_dst e = nd \<and> st_pos_out e = po \<and>
        st_neg_out e = no))))"

text \<open>
  A view \<open>obs\<close> of the world that only the optimizer calls change: the encoder, the
  decoder and the samplers leave it alone, and \<open>zero_grad\<close>, \<open>backward\<close> and \<open>step\<close> act
  on it as \<open>zg\<close>, \<open>bk\<close> and \<open>st\<close>. A counter of optimizer steps and a log of optimizer
  calls are such views.
\<close>

definition optimizer_view ::
  "('w, 'h, 'p) externals \<Rightarrow> ('w \<Rightarrow> 'o) \<Rightarrow> ('o \<Rightarrow> 'o) \<Rightarrow> (real \<Rightarrow> 'o \<Rightarrow> 'o) \<Rightarrow> ('o \<Rightarrow> 'o) \<Rightarrow> bool" where
  "optimizer_view X obs zg bk st =
     ((\<forall>w idx ea. obs (snd (model_fwd X w idx ea)) = obs w) \<and>
      (\<forall>w h a b. obs (snd (link_pred X w h a b)) = obs w) \<and>
      (\<forall>w lo hi n. obs (snd (randint X w lo hi n)) = obs w) \<and>
      (\<forall>w. obs (zero_grad X w) = zg (obs w)) \<and>
      (\<forall>w l. obs (backward X w l) = bk l (obs w)) \<and>
      (\<forall>w. obs (opt_step X w) = st (obs w)))"

definition gc_optimizer_view ::
  "('w, 'h, 'p) gc_externals \<Rightarrow> ('w \<Rightarrow> 'o) \<Rightarrow> ('o \<Rightarrow> 'o) \<Rightarrow> (real \<Rightarrow> 'o \<Rightarrow> 'o) \<Rightarrow> ('o \<Rightarrow> 'o) \<Rightarrow> bool" where
  "gc_optimizer_view X obs zg bk st =
     ((\<forall>w idx ea hc. obs (snd (gc_model X w idx ea hc)) = obs w) \<and>
      (\<forall>w h a b. obs (snd (gc_link_pred X w h a b)) = obs w) \<and>
      (\<forall>w pos n m. obs (snd (gc_negative_sampling X w pos n m)) = obs w) \<and>
      (\<forall>w. obs (gc_zero_grad X w) = zg (obs w)) \<and>
      (\<forall>w l. obs (gc_backward X w l) = bk l (obs w)) \<and>
      (\<forall>w. obs (gc_opt_step X w) = st (obs w)))"

text \<open>
  What an epoch of the EvolveGCN-O run did, seen from the world \<open>w\<close> it started in: entry
  \<open>en\<close> and world \<open>w'\<close> come from the training epoch at \<open>w\<close>, the validation pass at the
  world training left and, exactly when the entry improved, the test pass at the world
  validation left, whose metric is then \<open>best_test\<close>; otherwise the world is the one
  validation left and \<open>best_test\<close> is kept.
\<close>

definition epoch_calls ::
  "('w, 'h, 'p) externals \<Rightarrow> dataset \<Rightarrow> 'w \<Rightarrow> epoch_entry \<Rightarrow> 'w \<Rightarrow> bool" where
  "epoch_calls X ds w en w' =
     (\<exists>tr h ev.
        egcno_train_epoch X (train_split ds) w = Inr tr \<and> ts_h tr = Some h \<and>
        egcno_eval_split X Val (val_split ds) (td_num_nodes (train_split ds) + 1)
          (ts_world tr) h = Inr ev \<and>
        ee_val en = np_mean (es_perf ev) \<and>
        (if improved en
         then \<exists>te. egcno_eval_split X Test (test_split ds) (td_num_nodes (train_split ds) + 1)
                      (es_world ev) (es_h ev) = Inr te \<and>
                    w' = es_world te \<and> best_test (ee_after en) = np_mean (es_perf te)
         else w' = es_world ev \<and> best_test (ee_after en) = best_test (ee_before en)))"

section \<open>Concrete collaborators and data sets\<close>

text \<open>
  Small executable stand-ins on which the scripts can be run. The world counts the
  optimizer steps taken so far; the decoder returns that count, so the validation metric
  of epoch \<open>e\<close> is \<open>e + 1\<close>, except that the evaluator maps the score 2 to 0: the second
  epoch does not improve. The random generator returns node 1 before the first optimizer
  step and the largest admissible id afterwards.
\<close>

definition demo_externals :: "(nat, nat, real) externals" where
  "demo_externals =
     \<lparr>model_fwd = (\<lambda>w idx ea. (length idx, w)),
      link_pred = (\<lambda>w h a b. (real w, w)),
      criterion = (\<lambda>p t. (p - t) * (p - t)),
      randint = (\<lambda>w lo hi n. (replicate n (if w = 0 then 1 else hi - 1), w)),
      backward = (\<lambda>w l. w),
      opt_step = Suc,
      zero_grad = (\<lambda>w. w),
      query_batch = (\<lambda>sp s d t. [[0]]),
      evaluator = (\<lambda>p. if p = 2 then 0 else p)\<rparr>"

definition demo_train :: train_data where
  "demo_train = \<lparr>td_num_nodes = 3, td_time_length = 2,
                  td_edge_index = [[(0, 1)], [(2, 1)]], td_edge_attr = False\<rparr>"

definition demo_dataset :: dataset where
  "demo_dataset =
     \<lparr>train_split = demo_train,
      val_split = \<lparr>ed_edge_index = [(2, [(0, 2)]), (3, [(2, 1)])],
                    ed_original_edges = [(2, [(0, 2)]), (3, [(2, 1)])],
                    ed_edge_attr = False\<rparr>,
      test_split = \<lparr>ed_edge_index = [(4, [(1, 0)]), (5, [(2, 0)])],
                     ed_original_edges = [(4, [(1, 0)]), (5, [(2, 0)])],
                     ed_edge_attr = False\<rparr>\<rparr>"

definition gc_demo_externals :: "(nat, nat, real) gc_externals" where
  "gc_demo_externals =
     \<lparr>gc_model = (\<lambda>w idx ea hc. ((length idx, 0), w)),
      gc_link_pred = (\<lambda>w h a b. (real w, w)),
      gc_criterion = (\<lambda>p t. (p - t) * (p - t)),
      gc_negative_sampling = (\<lambda>w pos n m. (map (\<lambda>e. (fst e, 0)) pos, w)),
      gc_backward = (\<lambda>w l. w),
      gc_opt_step = Suc,
      gc_zero_grad = (\<lambda>w. w),
      gc_query_batch = (\<lambda>s d t. [[0]]),
      gc_evaluator = (\<lambda>p. p)\<rparr>"

definition gc_demo_train :: train_data where
  "gc_demo_train = \<lparr>td_num_nodes = 3, td_time_length = 3,
                     td_edge_index = [[(0, 1)], [(1, 2), (2, 0)], [(2, 1)]],
                     td_edge_attr = False\<rparr>"

definition gc_demo_val :: gc_eval_data where
  "gc_demo_val = \<lparr>gd_edge_index = [(3, [(0, 1)]), (4, [(1, 2)])],
                   gd_original_edges = [(3, [[0, 2], [1, 0]]), (4, [[1, 2], [2, 0]])],
                   gd_edge_attr = False\<rparr>"

definition gc_demo_dataset :: gc_dataset where
  "gc_demo_dataset = \<lparr>gc_train_split = gc_demo_train, gc_val_split = gc_demo_val\<rparr>"

definition gc_single_train :: train_data where
  "gc_single_train = \<lparr>td_num_nodes = 3, td_time_length = 1,
                       td_edge_index = [[(0, 1), (1, 2)]], td_edge_attr = False\<rparr>"

definition demo_train_attr :: train_data where
  "demo_train_attr = demo_train\<lparr>td_edge_attr := True\<rparr>"

definition demo_val_attr :: eval_data where
  "demo_val_attr = \<lparr>ed_edge_index = [(2, [(0, 2)]), (3, [(2, 1)])],
                     ed_original_edges = [(2, [(0, 2)]), (3, [(2, 1)])],
                     ed_edge_attr = True\<rparr>"

definition gc_demo_val_attr :: gc_eval_data where
  "gc_demo_val_attr = gc_demo_val\<lparr>gd_edge_attr := True\<rparr>"

text \<open>Collaborators whose world is the log of the optimizer calls made so far.\<close>

datatype opt_call = ZeroGrad | Backward real | Step

definition log_externals :: "(opt_call list, nat, real) externals" where
  "log_externals =
     \<lparr>model_fwd = (\<lambda>w idx ea. (length idx, w)),
      link_pred = (\<lambda>w h a b. (0, w)),
      criterion = (\<lambda>p t. (p - t) * (p - t)),
      randint = (\<lambda>w lo hi n. (replicate n lo, w)),
      backward = (\<lambda>w l. w @ [Backward l]),
      opt_step = (\<lambda>w. w @ [Step]),
      zero_grad = (\<lambda>w. w @ [ZeroGrad]),
      query_batch = (\<lambda>sp s d t. [[0]]),
      evaluator = (\<lambda>p. p)\<rparr>"

definition gc_log_externals :: "(opt_call list, nat, real) gc_externals" where
  "gc_log_externals =
     \<lparr>gc_model = (\<lambda>w idx ea hc. ((length idx, 0), w)),
      gc_link_pred = (\<lambda>w h a b. (0, w)),
      gc_criterion = (\<lambda>p t. (p - t) * (p - t)),
      gc_negative_sampling = (\<lambda>w pos n m. (map (\<lambda>e. (fst e, 0)) pos, w)),
      gc_backward = (\<lambda>w l. w @ [Backward l]),
      gc_opt_step = (\<lambda>w. w @ [Step]),
      gc_zero_grad = (\<lambda>w. w @ [ZeroGrad]),
      gc_query_batch = (\<lambda>s d t. [[0]]),
      gc_evaluator = (\<lambda>p. p)\<rparr>"

section \<open>Auxiliary facts about lists\<close>

lemma sum_list_take_nth:
  fixes f :: "'a \<Rightarrow> real"
  shows "t \<le> length xs \<Longrightarrow> sum_list (map f (take t xs)) = (\<Sum>u<t. f (xs ! u))"
proof (induction t)
  case 0
  then show ?case by simp
next
  case (Suc t)
  then have "take (Suc t) xs = take t xs @ [xs ! t]" by (simp add: take_Suc_conv_app_nth)
  with Suc show ?case by simp
qed

lemma map_idx_upt:
  assumes "map f xs = [0 ..< n]"
  shows "length xs = n \<and> (\<forall>t<n. f (xs ! t) = t)"
proof -
  from assms have l: "length xs = n" by (metis length_map length_upt minus_nat.diff_0)
  have "\<forall>t<n. f (xs ! t) = t"
  proof (intro allI impI)
    fix t assume t: "t < n"
    with l have "f (xs ! t) = map f xs ! t" by simp
    also have "\<dots> = t" using assms t by simp
    finally show "f (xs ! t) = t" .
  qed
  with l show ?thesis by simp
qed

section \<open>The EvolveGCN-O training loop\<close>

lemma egcno_train_feed_Inr:
  assumes "egcno_train_feed X D w t = Inr (fed, ea, hv, w1)"
  shows "\<not> td_edge_attr D \<and> t - 1 < length (td_edge_index D) \<and> fed = td_edge_index D ! (t - 1) \<and>
         ea = replicate (length fed) 1 \<and> hv = fst (model_fwd X w fed ea)"
  using assms
  by (auto simp: egcno_train_feed_def snapshot_at_def edge_weights_def
      split: if_splits sum.splits prod.splits)

lemma egcno_train_snapshot_Inr:
  assumes "egcno_train_snapshot X D N s t = Inr s'"
  shows "\<exists>e. ts_steps s' = ts_steps s @ [e] \<and> st_idx e = t \<and> egcno_step_ok X D N e \<and>
             ts_opt s' = ts_opt s \<and> ts_total_loss s' = ts_total_loss s + st_loss e \<and>
             ts_h s' = Some (st_h e)"
proof -
  from assms obtain fed ea hv w1 where feed: "egcno_train_feed X D (ts_world s) t = Inr (fed, ea, hv, w1)"
    by (auto simp: egcno_train_snapshot_def split: sum.splits)
  note f = egcno_train_feed_Inr[OF feed]
  from assms feed obtain pos where pos: "snapshot_at (td_edge_index D) t = Inr pos"
    by (auto simp: egcno_train_snapshot_def split: sum.splits)
  then have tl: "t < length (td_edge_index D)" and posv: "pos = td_edge_index D ! t"
    by (auto simp: snapshot_at_def split: if_splits)
  obtain neg_dst w2 where rnd: "randint X w1 0 N (length pos) = (neg_dst, w2)" by force
  obtain pos_out w3 where po: "link_pred X w2 hv (map fst pos) (map snd pos) = (pos_out, w3)" by force
  obtain neg_out w4 where no: "link_pred X w3 hv (map fst pos) neg_dst = (neg_out, w4)" by force
  from assms feed pos rnd po no have rng: "in_range N (map fst pos)" "in_range N (map snd pos)" "in_range N neg_dst"
    by (auto simp: egcno_train_snapshot_def split: if_splits)
  let ?e = "\<lparr>st_idx = t, st_fed = fed, st_weight = ea, st_h = Tensor hv True,
                     st_pos = pos, st_neg_dst = neg_dst, st_pos_out = pos_out,
                     st_neg_out = neg_out,
                     st_loss = criterion X pos_out 1 + criterion X neg_out 0\<rparr>"
  from assms feed pos rnd po no rng have s': "s' = s\<lparr>ts_world := w4,
                 ts_h := Some (Tensor hv True),
                 ts_total_loss := ts_total_loss s + criterion X pos_out 1 + criterion X neg_out 0,
                 ts_steps := ts_steps s @ [?e]\<rparr>"
    by (simp add: egcno_train_snapshot_def)
  have ok: "egcno_step_ok X D N ?e"
    unfolding egcno_step_ok_def using f tl posv rng
    apply (simp)
    apply (intro conjI)
       apply (metis)
      apply (metis rnd fst_conv)
     apply (metis po fst_conv)
    apply (metis no fst_conv)
    done
  show ?thesis
    by (rule exI[of _ ?e]) (simp add: s' ok)
qed

lemma egcno_train_loop_Inr:
  "egcno_train_loop X D N s ts = Inr s' \<Longrightarrow>
     \<exists>new. ts_steps s' = ts_steps s @ new \<and> map st_idx new = ts \<and>
           list_all (egcno_step_ok X D N) new \<and> ts_opt s' = ts_opt s \<and>
           ts_total_loss s' = ts_total_loss s + sum_list (map st_loss new) \<and>
           (ts = [] \<longrightarrow> ts_h s' = ts_h s) \<and> (ts \<noteq> [] \<longrightarrow> ts_h s' = Some (st_h (last new)))"
proof (induction ts arbitrary: s)
  case Nil
  then show ?case by simp
next
  case (Cons t ts)
  from Cons.prems obtain s1 where s1: "egcno_train_snapshot X D N s t = Inr s1"
      and rest: "egcno_train_loop X D N s1 ts = Inr s'"
    by (auto split: sum.splits)
  from egcno_train_snapshot_Inr[OF s1] obtain e where e:
    "ts_steps s1 = ts_steps s @ [e]" "st_idx e = t" "egcno_step_ok X D N e"
    "ts_opt s1 = ts_opt s" "ts_total_loss s1 = ts_total_loss s + st_loss e" "ts_h s1 = Some (st_h e)"
    by blast
  from Cons.IH[OF rest] obtain new where n:
    "ts_steps s' = ts_steps s1 @ new" "map st_idx new = ts"
    "list_all (egcno_step_ok X D N) new" "ts_opt s' = ts_opt s1"
    "ts_total_loss s' = ts_total_loss s1 + sum_list (map st_loss new)"
    "ts = [] \<longrightarrow> ts_h s' = ts_h s1" "ts \<noteq> [] \<longrightarrow> ts_h s' = Some (st_h (last new))"
    by blast
  show ?case
    apply (rule exI[of _ "e # new"])
    using e n by (cases "new = []") auto
qed

lemma egcno_train_epoch_Inr:
  assumes "egcno_train_epoch X D w = Inr s"
  shows "map st_idx (ts_steps s) = [0 ..< td_time_length D] \<and>
         list_all (egcno_step_ok X D (num_nodes_of D)) (ts_steps s) \<and>
         ts_total_loss s = sum_list (map st_loss (ts_steps s)) \<and>
         ts_opt s = [ts_total_loss s] \<and> 0 < td_time_length D \<and>
         ts_h s = Some (st_h (last (ts_steps s))) \<and>
         (\<exists>w'. ts_world s = opt_step X (backward X w' (ts_total_loss s)))"
proof -
  let ?s0 = "\<lparr>ts_world = zero_grad X w, ts_h = None, ts_total_loss = 0, ts_steps = [],
              ts_opt = []\<rparr>"
  from assms obtain s1 where loop:
    "egcno_train_loop X D (num_nodes_of D) ?s0 [0 ..< td_time_length D] = Inr s1"
    and T: "0 < td_time_length D"
    and s: "s = s1\<lparr>ts_world := opt_step X (backward X (ts_world s1) (ts_total_loss s1)),
                      ts_opt := ts_opt s1 @ [ts_total_loss s1]\<rparr>"
    by (auto simp: egcno_train_epoch_def split: sum.splits if_splits)
  from T have ne: "[0 ..< td_time_length D] \<noteq> []" by simp
  from egcno_train_loop_Inr[OF loop] ne obtain new where n:
    "ts_steps s1 = new" "map st_idx new = [0 ..< td_time_length D]"
    "list_all (egcno_step_ok X D (num_nodes_of D)) new" "ts_opt s1 = []"
    "ts_total_loss s1 = sum_list (map st_loss new)"
    "ts_h s1 = Some (st_h (last new))"
    by auto
  with T s show ?thesis by auto
qed

text \<open>The EvolveGCN-O loop feeds snapshot \<open>t - 1\<close> (snapshot 0 at \<open>t = 0\<close>) and scores snapshot
  \<open>t\<close> with the embedding that call returned.\<close>

lemma egcno_feed_shift:
  assumes "egcno_train_epoch X D w = Inr s"
  shows "length (ts_steps s) = td_time_length D \<and>
     (\<forall>t<td_time_length D.
        st_fed (ts_steps s ! t) = td_edge_index D ! (t - 1) \<and>
        st_pos (ts_steps s ! t) = td_edge_index D ! t \<and>
        (\<exists>w'. data (st_h (ts_steps s ! t)) =
           fst (model_fwd X w' (td_edge_index D ! (t - 1)) (st_weight (ts_steps s ! t)))) \<and>
        (\<exists>w'. st_pos_out (ts_steps s ! t) =
           fst (link_pred X w' (data (st_h (ts_steps s ! t)))
                  (map fst (td_edge_index D ! t)) (map snd (td_edge_index D ! t)))))"
proof -
  note e = egcno_train_epoch_Inr[OF assms]
  let ?xs = "ts_steps s"
  from e have idx: "map st_idx ?xs = [0 ..< td_time_length D]" by simp
  note m = map_idx_upt[OF idx]
  have "st_fed (?xs ! t) = td_edge_index D ! (t - 1) \<and>
        st_pos (?xs ! t) = td_edge_index D ! t \<and>
        (\<exists>w'. data (st_h (?xs ! t)) =
           fst (model_fwd X w' (td_edge_index D ! (t - 1)) (st_weight (?xs ! t)))) \<and>
        (\<exists>w'. st_pos_out (?xs ! t) =
           fst (link_pred X w' (data (st_h (?xs ! t)))
                  (map fst (td_edge_index D ! t)) (map snd (td_edge_index D ! t))))"
    if "t < td_time_length D" for t
  proof -
    from that m have "?xs ! t \<in> set ?xs" by simp
    with e have ok: "egcno_step_ok X D (num_nodes_of D) (?xs ! t)" by (simp add: list_all_iff)
    from m that have i: "st_idx (?xs ! t) = t" by simp
    from ok i show ?thesis unfolding egcno_step_ok_def by metis
  qed
  with m show ?thesis by blast
qed

text \<open>The only source of \<open>NotImplementedError\<close> is the guard.\<close>

lemma egcno_train_snapshot_Inl:
  "egcno_train_snapshot X D N s t = Inl e \<Longrightarrow> \<not> td_edge_attr D \<Longrightarrow> e \<noteq> NotImplementedError"
  by (auto simp: egcno_train_snapshot_def egcno_train_feed_def snapshot_at_def edge_weights_def
      split: sum.splits prod.splits if_splits)

lemma egcno_train_loop_Inl:
  "egcno_train_loop X D N s ts = Inl e \<Longrightarrow> \<not> td_edge_attr D \<Longrightarrow> e \<noteq> NotImplementedError"
  by (induction ts arbitrary: s) (auto split: sum.splits dest: egcno_train_snapshot_Inl)

lemma egcno_train_epoch_attr:
  assumes "td_edge_index D \<noteq> []" "0 < td_time_length D"
  shows "(egcno_train_epoch X D w = Inl NotImplementedError) = td_edge_attr D"
proof (cases "td_edge_attr D")
  case True
  from assms(2) have upt: "[0 ..< td_time_length D] = 0 # [1 ..< td_time_length D]"
    by (simp add: upt_rec)
  from assms(1) True have "egcno_train_feed X D w' 0 = Inl NotImplementedError" for w'
    by (simp add: egcno_train_feed_def snapshot_at_def edge_weights_def)
  then have "egcno_train_snapshot X D N s 0 = Inl NotImplementedError" for N s
    by (simp add: egcno_train_snapshot_def)
  with upt True show ?thesis by (simp add: egcno_train_epoch_def)
next
  case False
  have "egcno_train_epoch X D w \<noteq> Inl NotImplementedError"
  proof
    assume a: "egcno_train_epoch X D w = Inl NotImplementedError"
    then obtain s0 where "egcno_train_loop X D (num_nodes_of D) s0 [0 ..< td_time_length D] =
        Inl NotImplementedError"
      by (auto simp: egcno_train_epoch_def split: sum.splits if_splits)
    from egcno_train_loop_Inl[OF this False] show False by simp
  qed
  with False show ?thesis by simp
qed

text \<open>Every recorded value is the result of the call made at the world the previous call
  left.\<close>

lemma egcno_train_snapshot_tied:
  assumes "egcno_train_snapshot X D N s t = Inr s'"
  shows "\<exists>e. ts_steps s' = ts_steps s @ [e] \<and> egcno_step_tied X N (ts_world s) e \<and>
             ts_world s' = egcno_step_next X N (ts_world s) e"
proof -
  from assms obtain fed ea hv w1 where feed: "egcno_train_feed X D (ts_world s) t = Inr (fed, ea, hv, w1)"
    by (auto simp: egcno_train_snapshot_def split: sum.splits)
  then have mf: "model_fwd X (ts_world s) fed ea = (hv, w1)"
    by (auto simp: egcno_train_feed_def split: sum.splits prod.splits)
  from assms feed obtain pos where pos: "snapshot_at (td_edge_index D) t = Inr pos"
    by (auto simp: egcno_train_snapshot_def split: sum.splits)
  obtain neg_dst w2 where rnd: "randint X w1 0 N (length pos) = (neg_dst, w2)" by force
  obtain pos_out w3 where po: "link_pred X w2 hv (map fst pos) (map snd pos) = (pos_out, w3)" by force
  obtain neg_out w4 where no: "link_pred X w3 hv (map fst pos) neg_dst = (neg_out, w4)" by force
  from assms feed pos rnd po no have rng: "in_range N (map fst pos)" "in_range N (map snd pos)" "in_range N neg_dst"
    by (auto simp: egcno_train_snapshot_def split: if_splits)
  let ?e = "\<lparr>st_idx = t, st_fed = fed, st_weight = ea, st_h = Tensor hv True,
                     st_pos = pos, st_neg_dst = neg_dst, st_pos_out = pos_out,
                     st_neg_out = neg_out,
                     st_loss = criterion X pos_out 1 + criterion X neg_out 0\<rparr>"
  from assms feed pos rnd po no rng have s': "s' = s\<lparr>ts_world := w4,
                 ts_h := Some (Tensor hv True),
                 ts_total_loss := ts_total_loss s + criterion X pos_out 1 + criterion X neg_out 0,
                 ts_steps := ts_steps s @ [?e]\<rparr>"
    by (simp add: egcno_train_snapshot_def)
  have "egcno_step_tied X N (ts_world s) ?e"
    by (simp add: egcno_step_tied_def mf rnd po no)
  moreover have "egcno_step_next X N (ts_world s) ?e = w4"
    by (simp add: egcno_step_next_def mf rnd po no)
  ultimately show ?thesis
    by (intro exI[of _ ?e]) (simp add: s')
qed

lemma egcno_train_loop_tied:
  "egcno_train_loop X D N s ts = Inr s' \<Longrightarrow>
     \<exists>new. ts_steps s' = ts_steps s @ new \<and>
           (\<forall>t<length new.
              egcno_step_tied X N (foldl (egcno_step_next X N) (ts_world s) (take t new)) (new ! t)) \<and>
           ts_world s' = foldl (egcno_step_next X N) (ts_world s) new"
proof (induction ts arbitrary: s)
  case Nil
  then show ?case by simp
next
  case (Cons t ts)
  from Cons.prems obtain s1 where s1: "egcno_train_snapshot X D N s t = Inr s1"
      and rest: "egcno_train_loop X D N s1 ts = Inr s'"
    by (auto split: sum.splits)
  from egcno_train_snapshot_tied[OF s1] obtain e where e:
    "ts_steps s1 = ts_steps s @ [e]" "egcno_step_tied X N (ts_world s) e"
    "ts_world s1 = egcno_step_next X N (ts_world s) e"
    by blast
  from Cons.IH[OF rest] obtain new where n:
    "ts_steps s' = ts_steps s1 @ new"
    "\<forall>t<length new.
        egcno_step_tied X N (foldl (egcno_step_next X N) (ts_world s1) (take t new)) (new ! t)"
    "ts_world s' = foldl (egcno_step_next X N) (ts_world s1) new"
    by blast
  have tied: "\<forall>i<length (e # new).
      egcno_step_tied X N (foldl (egcno_step_next X N) (ts_world s) (take i (e # new))) ((e # new) ! i)"
  proof (intro allI impI)
    fix i assume i: "i < length (e # new)"
    show "egcno_step_tied X N (foldl (egcno_step_next X N) (ts_world s) (take i (e # new))) ((e # new) ! i)"
    proof (cases i)
      case 0
      with e show ?thesis by simp
    next
      case (Suc j)
      with i n(2) have "egcno_step_tied X N (foldl (egcno_step_next X N) (ts_world s1) (take j new)) (new ! j)"
        by simp
      with Suc e(3) show ?thesis by simp
    qed
  qed
  show ?case
    apply (rule exI[of _ "e # new"])
    using e n(1,3) tied by simp
qed

lemma egcno_train_epoch_tied:
  assumes "egcno_train_epoch X D w = Inr s"
  shows "(\<forall>t<length (ts_steps s).
            egcno_step_tied X (num_nodes_of D)
              (foldl (egcno_step_next X (num_nodes_of D)) (zero_grad X w) (take t (ts_steps s)))
              (ts_steps s ! t)) \<and>
         ts_world s =
           opt_step X (backward X
             (foldl (egcno_step_next X (num_nodes_of D)) (zero_grad X w) (ts_steps s))
             (ts_total_loss s))"
proof -
  from assms obtain s1 where loop:
    "egcno_train_loop X D (num_nodes_of D)
       \<lparr>ts_world = zero_grad X w, ts_h = None, ts_total_loss = 0, ts_steps = [], ts_opt = []\<rparr>
       [0 ..< td_time_length D] = Inr s1"
    and s: "s = s1\<lparr>ts_world := opt_step X (backward X (ts_world s1) (ts_total_loss s1)),
                      ts_opt := ts_opt s1 @ [ts_total_loss s1]\<rparr>"
    by (auto simp: egcno_train_epoch_def split: sum.splits if_splits)
  from egcno_train_loop_tied[OF loop] obtain new where n:
    "ts_steps s1 = new"
    "\<forall>t<length new.
        egcno_step_tied X (num_nodes_of D)
          (foldl (egcno_step_next X (num_nodes_of D)) (zero_grad X w) (take t new)) (new ! t)"
    "ts_world s1 = foldl (egcno_step_next X (num_nodes_of D)) (zero_grad X w) new"
    by auto
  with s show ?thesis by simp
qed

text \<open>The snapshot loop makes no optimizer call.\<close>

lemma egcno_train_snapshot_view:
  assumes "optimizer_view X obs zg bk st" "egcno_train_snapshot X D N s t = Inr s'"
  shows "obs (ts_world s') = obs (ts_world s)"
proof -
  from egcno_train_snapshot_tied[OF assms(2)] obtain e where
    "ts_world s' = egcno_step_next X N (ts_world s) e" by blast
  moreover from assms(1) have "obs (egcno_step_next X N w e) = obs w" for w
    unfolding egcno_step_next_def optimizer_view_def
    by (auto split: prod.splits) (metis snd_conv)
  ultimately show ?thesis by simp
qed

lemma egcno_train_loop_view:
  "optimizer_view X obs zg bk st \<Longrightarrow> egcno_train_loop X D N s ts = Inr s' \<Longrightarrow>
     obs (ts_world s') = obs (ts_world s)"
proof (induction ts arbitrary: s)
  case Nil
  then show ?case by simp
next
  case (Cons t ts)
  from Cons.prems(2) obtain s1 where s1: "egcno_train_snapshot X D N s t = Inr s1"
      and rest: "egcno_train_loop X D N s1 ts = Inr s'"
    by (auto split: sum.splits)
  from Cons.IH[OF Cons.prems(1) rest] egcno_train_snapshot_view[OF Cons.prems(1) s1]
  show ?case by simp
qed

lemma egcno_train_epoch_view:
  assumes "optimizer_view X obs zg bk st" "egcno_train_epoch X D w = Inr s"
  shows "obs (ts_world s) = st (bk (ts_total_loss s) (zg (obs w)))"
proof -
  from assms(2) obtain s1 where loop:
    "egcno_train_loop X D (num_nodes_of D)
       \<lparr>ts_world = zero_grad X w, ts_h = None, ts_total_loss = 0, ts_steps = [], ts_opt = []\<rparr>
       [0 ..< td_time_length D] = Inr s1"
    and s: "s = s1\<lparr>ts_world := opt_step X (backward X (ts_world s1) (ts_total_loss s1)),
                      ts_opt := ts_opt s1 @ [ts_total_loss s1]\<rparr>"
    by (auto simp: egcno_train_epoch_def split: sum.splits if_splits)
  from egcno_train_loop_view[OF assms(1) loop] have "obs (ts_world s1) = obs (zero_grad X w)"
    by simp
  with assms(1) s show ?thesis by (simp add: optimizer_view_def)
qed

section \<open>The GC-LSTM training loop\<close>

lemma gclstm_train_feed_Inr:
  assumes "gclstm_train_feed X D w hc pos t = Inr (fed, ea, hcv, w1)"
    and "snapshot_at (td_edge_index D) t = Inr pos"
  shows "\<not> td_edge_attr D \<and> fed = td_edge_index D ! (t - 1) \<and>
         ea = replicate (length fed) 1 \<and>
         hcv = fst (gc_model X w fed ea (map_option (\<lambda>hc. (data (fst hc), data (snd hc))) hc))"
  using assms
  by (auto simp: gclstm_train_feed_def snapshot_at_def edge_weights_def
      split: if_splits sum.splits prod.splits)

lemma gclstm_train_snapshot_Inr:
  assumes "gclstm_train_snapshot X D N s t = Inr s'"
  shows "\<exists>e. gt_steps s' = gt_steps s @ [e] \<and> gs_idx e = t \<and> gclstm_step_ok X D N e \<and>
             gt_opt s' = gt_opt s \<and> gs_loss_before e = gt_loss s \<and>
             gt_loss s' = gt_loss s + gs_loss e \<and>
             gt_total_loss s' = gt_total_loss s + gs_loss_before e * real (length (gs_fed e)) \<and>
             gt_hc s' \<noteq> None"
proof -
  from assms obtain pos where pos: "snapshot_at (td_edge_index D) t = Inr pos"
    by (auto simp: gclstm_train_snapshot_def split: sum.splits)
  then have tl: "t < length (td_edge_index D)" and posv: "pos = td_edge_index D ! t"
    by (auto simp: snapshot_at_def split: if_splits)
  obtain neg w1 where ns: "gc_negative_sampling X (gt_world s) pos N (length pos * 1) = (neg, w1)"
    by force
  from assms pos ns obtain fed ea hcv w2 where
    feed: "gclstm_train_feed X D w1 (gt_hc s) pos t = Inr (fed, ea, hcv, w2)"
    by (auto simp: gclstm_train_snapshot_def split: sum.splits)
  note f = gclstm_train_feed_Inr[OF feed pos]
  obtain pos_out w3 where po:
    "gc_link_pred X w2 (fst hcv) (map fst fed) (map snd fed) = (pos_out, w3)" by force
  obtain neg_out w4 where no:
    "gc_link_pred X w3 (fst hcv) (map fst neg) (map snd neg) = (neg_out, w4)" by force
  let ?e = "\<lparr>gs_idx = t, gs_current = pos, gs_fed = fed, gs_weight = ea,
              gs_h = Tensor (fst hcv) True, gs_pos = fed, gs_neg = neg,
              gs_pos_out = pos_out, gs_neg_out = neg_out,
              gs_loss_before = gt_loss s,
              gs_loss = gc_criterion X pos_out 1 + gc_criterion X neg_out 0\<rparr>"
  from assms pos ns feed po no have s': "s' = s\<lparr>gt_world := w4,
                 gt_hc := Some (Tensor (fst hcv) True, Tensor (snd hcv) True),
                 gt_total_loss := gt_total_loss s + gt_loss s * real (length fed),
                 gt_loss := gt_loss s + gc_criterion X pos_out 1 + gc_criterion X neg_out 0,
                 gt_steps := gt_steps s @ [?e]\<rparr>"
    by (auto simp: gclstm_train_snapshot_def split: if_splits)
  have ok: "gclstm_step_ok X D N ?e"
    unfolding gclstm_step_ok_def using f tl posv
    apply (simp)
    apply (intro conjI)
       apply (metis)
      apply (metis ns fst_conv mult.right_neutral)
     apply (metis po fst_conv)
    apply (metis no fst_conv)
    done
  show ?thesis
    by (rule exI[of _ ?e]) (simp add: s' ok)
qed

lemma gclstm_train_loop_Inr:
  "gclstm_train_loop X D N s ts = Inr s' \<Longrightarrow>
     \<exists>new. gt_steps s' = gt_steps s @ new \<and> map gs_idx new = ts \<and>
           list_all (gclstm_step_ok X D N) new \<and> gt_opt s' = gt_opt s \<and>
           gt_loss s' = gt_loss s + sum_list (map gs_loss new) \<and>
           gt_total_loss s' = gt_total_loss s +
             sum_list (map (\<lambda>e. gs_loss_before e * real (length (gs_fed e))) new) \<and>
           (\<forall>i<length new. gs_loss_before (new ! i) = gt_loss s + sum_list (map gs_loss (take i new))) \<and>
           (ts \<noteq> [] \<longrightarrow> gt_hc s' \<noteq> None)"
proof (induction ts arbitrary: s)
  case Nil
  then show ?case by simp
next
  case (Cons t ts)
  from Cons.prems obtain s1 where s1: "gclstm_train_snapshot X D N s t = Inr s1"
      and rest: "gclstm_train_loop X D N s1 ts = Inr s'"
    by (auto split: sum.splits)
  from gclstm_train_snapshot_Inr[OF s1] obtain e where e:
    "gt_steps s1 = gt_steps s @ [e]" "gs_idx e = t" "gclstm_step_ok X D N e"
    "gt_opt s1 = gt_opt s" "gs_loss_before e = gt_loss s" "gt_loss s1 = gt_loss s + gs_loss e"
    "gt_total_loss s1 = gt_total_loss s + gs_loss_before e * real (length (gs_fed e))"
    "gt_hc s1 \<noteq> None"
    by blast
  from Cons.IH[OF rest] obtain new where n:
    "gt_steps s' = gt_steps s1 @ new" "map gs_idx new = ts"
    "list_all (gclstm_step_ok X D N) new" "gt_opt s' = gt_opt s1"
    "gt_loss s' = gt_loss s1 + sum_list (map gs_loss new)"
    "gt_total_loss s' = gt_total_loss s1 +
             sum_list (map (\<lambda>e. gs_loss_before e * real (length (gs_fed e))) new)"
    "\<forall>i<length new. gs_loss_before (new ! i) = gt_loss s1 + sum_list (map gs_loss (take i new))"
    "ts \<noteq> [] \<longrightarrow> gt_hc s' \<noteq> None"
    by blast
  have hc: "gt_hc s' \<noteq> None"
  proof (cases ts)
    case Nil
    with rest e show ?thesis by simp
  next
    case (Cons a list)
    with n show ?thesis by simp
  qed
  have lb: "\<forall>i<length (e # new). gs_loss_before ((e # new) ! i) =
              gt_loss s + sum_list (map gs_loss (take i (e # new)))"
  proof (intro allI impI)
    fix i assume "i < length (e # new)"
    then show "gs_loss_before ((e # new) ! i) = gt_loss s + sum_list (map gs_loss (take i (e # new)))"
      using e n by (cases i) auto
  qed
  show ?case
    apply (rule exI[of _ "e # new"])
    using e n hc lb by simp
qed

lemma gclstm_train_epoch_Inr:
  assumes "gclstm_train_epoch X D w = Inr s"
  shows "map gs_idx (gt_steps s) = [0 ..< td_time_length D] \<and>
         list_all (gclstm_step_ok X D (num_nodes_of D)) (gt_steps s) \<and>
         gt_loss s = sum_list (map gs_loss (gt_steps s)) \<and>
         gt_total_loss s =
           sum_list (map (\<lambda>e. gs_loss_before e * real (length (gs_fed e))) (gt_steps s)) \<and>
         (\<forall>i<length (gt_steps s).
            gs_loss_before (gt_steps s ! i) = sum_list (map gs_loss (take i (gt_steps s)))) \<and>
         gt_opt s = [gt_loss s] \<and> 0 < td_time_length D \<and> gt_hc s \<noteq> None \<and>
         (\<exists>w'. gt_world s = gc_zero_grad X (gc_opt_step X (gc_backward X w' (gt_loss s))))"
proof -
  let ?s0 = "\<lparr>gt_world = w, gt_hc = None, gt_loss = 0, gt_total_loss = 0, gt_steps = [],
              gt_opt = []\<rparr>"
  from assms obtain s1 where loop:
    "gclstm_train_loop X D (num_nodes_of D) ?s0 [0 ..< td_time_length D] = Inr s1"
    and T: "0 < td_time_length D"
    and s: "s = s1\<lparr>gt_world :=
                        gc_zero_grad X (gc_opt_step X (gc_backward X (gt_world s1) (gt_loss s1))),
                      gt_opt := gt_opt s1 @ [gt_loss s1]\<rparr>"
    by (auto simp: gclstm_train_epoch_def split: sum.splits if_splits)
  from T have ne: "[0 ..< td_time_length D] \<noteq> []" by simp
  from gclstm_train_loop_Inr[OF loop] ne obtain new where n:
    "gt_steps s1 = new" "map gs_idx new = [0 ..< td_time_length D]"
    "list_all (gclstm_step_ok X D (num_nodes_of D)) new" "gt_opt s1 = []"
    "gt_loss s1 = sum_list (map gs_loss new)"
    "gt_total_loss s1 =
             sum_list (map (\<lambda>e. gs_loss_before e * real (length (gs_fed e))) new)"
    "\<forall>i<length new. gs_loss_before (new ! i) = sum_list (map gs_loss (take i new))"
    "gt_hc s1 \<noteq> None"
    by auto
  with T s show ?thesis by auto
qed

text \<open>The GC-LSTM loop feeds the same edges, and scores them: not snapshot \<open>t\<close>.\<close>

lemma gclstm_scores_fed:
  assumes "gclstm_train_epoch X D w = Inr s"
  shows "length (gt_steps s) = td_time_length D \<and>
     (\<forall>t<td_time_length D.
        gs_current (gt_steps s ! t) = td_edge_index D ! t \<and>
        gs_fed (gt_steps s ! t) = td_edge_index D ! (t - 1) \<and>
        gs_pos (gt_steps s ! t) = td_edge_index D ! (t - 1))"
proof -
  note e = gclstm_train_epoch_Inr[OF assms]
  let ?xs = "gt_steps s"
  from e have idx: "map gs_idx ?xs = [0 ..< td_time_length D]" by simp
  note m = map_idx_upt[OF idx]
  have "gs_current (?xs ! t) = td_edge_index D ! t \<and>
        gs_fed (?xs ! t) = td_edge_index D ! (t - 1) \<and>
        gs_pos (?xs ! t) = td_edge_index D ! (t - 1)"
    if "t < td_time_length D" for t
  proof -
    from that m have "?xs ! t \<in> set ?xs" by simp
    with e have ok: "gclstm_step_ok X D (num_nodes_of D) (?xs ! t)" by (simp add: list_all_iff)
    from m that have i: "gs_idx (?xs ! t) = t" by simp
    from ok i show ?thesis unfolding gclstm_step_ok_def by metis
  qed
  with m show ?thesis by blast
qed

lemma gclstm_train_snapshot_Inl:
  "gclstm_train_snapshot X D N s t = Inl e \<Longrightarrow> \<not> td_edge_attr D \<Longrightarrow> e \<noteq> NotImplementedError"
  by (auto simp: gclstm_train_snapshot_def gclstm_train_feed_def snapshot_at_def edge_weights_def
      split: sum.splits prod.splits if_splits)

lemma gclstm_train_loop_Inl:
  "gclstm_train_loop X D N s ts = Inl e \<Longrightarrow> \<not> td_edge_attr D \<Longrightarrow> e \<noteq> NotImplementedError"
  by (induction ts arbitrary: s) (auto split: sum.splits dest: gclstm_train_snapshot_Inl)

lemma gclstm_train_epoch_attr:
  assumes "td_edge_index D \<noteq> []" "0 < td_time_length D"
  shows "(gclstm_train_epoch X D w = Inl NotImplementedError) = td_edge_attr D"
proof (cases "td_edge_attr D")
  case True
  from assms(2) have upt: "[0 ..< td_time_length D] = 0 # [1 ..< td_time_length D]"
    by (simp add: upt_rec)
  from True have "gclstm_train_feed X D w' hc pos 0 = Inl NotImplementedError" for w' hc pos
    by (simp add: gclstm_train_feed_def edge_weights_def)
  with assms(1) have "gclstm_train_snapshot X D N s 0 = Inl NotImplementedError" for N s
    by (simp add: gclstm_train_snapshot_def snapshot_at_def split: prod.splits)
  with upt True show ?thesis by (simp add: gclstm_train_epoch_def)
next
  case False
  have "gclstm_train_epoch X D w \<noteq> Inl NotImplementedError"
  proof
    assume a: "gclstm_train_epoch X D w = Inl NotImplementedError"
    then obtain s0 where "gclstm_train_loop X D (num_nodes_of D) s0 [0 ..< td_time_length D] =
        Inl NotImplementedError"
      by (auto simp: gclstm_train_epoch_def split: sum.splits if_splits)
    from gclstm_train_loop_Inl[OF this False] show False by simp
  qed
  with False show ?thesis by simp
qed

text \<open>The snapshot loop makes no optimizer call.\<close>

lemma gclstm_train_snapshot_view:
  assumes "gc_optimizer_view X obs zg bk st" "gclstm_train_snapshot X D N s t = Inr s'"
  shows "obs (gt_world s') = obs (gt_world s)"
proof -
  from assms(2) obtain pos where pos: "snapshot_at (td_edge_index D) t = Inr pos"
    by (auto simp: gclstm_train_snapshot_def split: sum.splits)
  obtain neg w1 where ns: "gc_negative_sampling X (gt_world s) pos N (length pos * 1) = (neg, w1)"
    by force
  from assms(2) pos ns obtain fed ea hcv w2 where
    feed: "gclstm_train_feed X D w1 (gt_hc s) pos t = Inr (fed, ea, hcv, w2)"
    by (auto simp: gclstm_train_snapshot_def split: sum.splits)
  then have gm: "gc_model X w1 fed ea (map_option (\<lambda>hc. (data (fst hc), data (snd hc))) (gt_hc s)) =
      (hcv, w2)"
    by (auto simp: gclstm_train_feed_def split: sum.splits prod.splits)
  obtain pos_out w3 where po:
    "gc_link_pred X w2 (fst hcv) (map fst fed) (map snd fed) = (pos_out, w3)" by force
  obtain neg_out w4 where no:
    "gc_link_pred X w3 (fst hcv) (map fst neg) (map snd neg) = (neg_out, w4)" by force
  from assms(2) pos ns feed po no have w: "gt_world s' = w4"
    by (auto simp: gclstm_train_snapshot_def split: if_splits)
  from assms(1) have v:
    "\<And>w idx ea hc. obs (snd (gc_model X w idx ea hc)) = obs w"
    "\<And>w h a b. obs (snd (gc_link_pred X w h a b)) = obs w"
    "\<And>w pos n m. obs (snd (gc_negative_sampling X w pos n m)) = obs w"
    unfolding gc_optimizer_view_def by blast+
  from v(3)[of "gt_world s" pos N "length pos * 1"] ns have "obs w1 = obs (gt_world s)" by simp
  moreover from v(1)[of w1 fed ea "map_option (\<lambda>hc. (data (fst hc), data (snd hc))) (gt_hc s)"] gm
  have "obs w2 = obs w1" by simp
  moreover from v(2)[of w2 "fst hcv" "map fst fed" "map snd fed"] po have "obs w3 = obs w2" by simp
  moreover from v(2)[of w3 "fst hcv" "map fst neg" "map snd neg"] no have "obs w4 = obs w3" by simp
  ultimately show ?thesis using w by simp
qed

lemma gclstm_train_loop_view:
  "gc_optimizer_view X obs zg bk st \<Longrightarrow> gclstm_train_loop X D N s ts = Inr s' \<Longrightarrow>
     obs (gt_world s') = obs (gt_world s)"
proof (induction ts arbitrary: s)
  case Nil
  then show ?case by simp
next
  case (Cons t ts)
  from Cons.prems(2) obtain s1 where s1: "gclstm_train_snapshot X D N s t = Inr s1"
      and rest: "gclstm_train_loop X D N s1 ts = Inr s'"
    by (auto split: sum.splits)
  from Cons.IH[OF Cons.prems(1) rest] gclstm_train_snapshot_view[OF Cons.prems(1) s1]
  show ?case by simp
qed

lemma gclstm_train_epoch_view:
  assumes "gc_optimizer_view X obs zg bk st" "gclstm_train_epoch X D w = Inr s"
  shows "obs (gt_world s) = zg (st (bk (gt_loss s) (obs w)))"
proof -
  from assms(2) obtain s1 where loop:
    "gclstm_train_loop X D (num_nodes_of D)
       \<lparr>gt_world = w, gt_hc = None, gt_loss = 0, gt_total_loss = 0, gt_steps = [], gt_opt = []\<rparr>
       [0 ..< td_time_length D] = Inr s1"
    and s: "s = s1\<lparr>gt_world :=
                        gc_zero_grad X (gc_opt_step X (gc_backward X (gt_world s1) (gt_loss s1))),
                      gt_opt := gt_opt s1 @ [gt_loss s1]\<rparr>"
    by (auto simp: gclstm_train_epoch_def split: sum.splits if_splits)
  from gclstm_train_loop_view[OF assms(1) loop] have "obs (gt_world s1) = obs w"
    by simp
  with assms(1) s show ?thesis by (simp add: gc_optimizer_view_def)
qed

section \<open>The evaluation loops\<close>

lemma egcno_eval_advance_Inr:
  assumes "egcno_eval_advance X sp D k w = Inr (prev, ea, h', w2)"
  shows "\<not> ed_edge_attr D \<and> map_of (ed_edge_index D) k = Some prev \<and>
         ea = replicate (length prev) 1 \<and> data h' = fst (model_fwd X w prev ea) \<and>
         requires_grad h' = (sp = Test)"
  using assms
  by (auto simp: egcno_eval_advance_def edge_weights_def detach_def
      split: option.splits sum.splits prod.splits if_splits split.splits)

lemma egcno_eval_loop_Inr:
  "egcno_eval_loop X sp D N s ks = Inr s' \<Longrightarrow>
     \<exists>new. es_steps s' = es_steps s @ new \<and> map ev_key new = ks \<and>
           (\<forall>e\<in>set new. ev_weight e = replicate (length (ev_fed e)) 1 \<and>
                         map_of (ed_edge_index D) (ev_key e) = Some (ev_fed e)) \<and>
           (new \<noteq> [] \<longrightarrow> ev_h (hd new) = es_h s) \<and>
           (\<forall>i<length new. 0 < i \<longrightarrow> requires_grad (ev_h (new ! i)) = (sp = Test)) \<and>
           (ks = [] \<longrightarrow> es_h s' = es_h s) \<and>
           (ks \<noteq> [] \<longrightarrow> requires_grad (es_h s') = (sp = Test) \<and> \<not> ed_edge_attr D)"
proof (induction ks arbitrary: s)
  case Nil
  then show ?case by simp
next
  case (Cons k ks)
  from Cons.prems obtain pos acc prev ea h' w2 where
    adv: "egcno_eval_advance X sp D k (fst acc) = Inr (prev, ea, h', w2)" and
    rest: "egcno_eval_loop X sp D N
          \<lparr>es_world = w2, es_h = h', es_perf = snd acc,
           es_steps = es_steps s @
             [\<lparr>ev_key = k, ev_h = es_h s, ev_fed = prev, ev_weight = ea\<rparr>]\<rparr> ks = Inr s'"
    by (auto split: option.splits sum.splits prod.splits)
  note a = egcno_eval_advance_Inr[OF adv]
  let ?e = "\<lparr>ev_key = k, ev_h = es_h s, ev_fed = prev, ev_weight = ea\<rparr>"
  let ?s1 = "\<lparr>es_world = w2, es_h = h', es_perf = snd acc, es_steps = es_steps s @ [?e]\<rparr>"
  from Cons.IH[OF rest] obtain new where n:
    "es_steps s' = es_steps ?s1 @ new" "map ev_key new = ks"
    "\<forall>e\<in>set new. ev_weight e = replicate (length (ev_fed e)) 1 \<and>
                         map_of (ed_edge_index D) (ev_key e) = Some (ev_fed e)"
    "new \<noteq> [] \<longrightarrow> ev_h (hd new) = es_h ?s1"
    "\<forall>i<length new. 0 < i \<longrightarrow> requires_grad (ev_h (new ! i)) = (sp = Test)"
    "ks = [] \<longrightarrow> es_h s' = es_h ?s1"
    "ks \<noteq> [] \<longrightarrow> requires_grad (es_h s') = (sp = Test) \<and> \<not> ed_edge_attr D"
    by blast
  have hs: "\<forall>i<length (?e # new). 0 < i \<longrightarrow> requires_grad (ev_h ((?e # new) ! i)) = (sp = Test)"
  proof (intro allI impI)
    fix i assume i: "i < length (?e # new)" "0 < i"
    then obtain j where ij: "i = Suc j" by (cases i) auto
    with i have j: "j < length new" by simp
    show "requires_grad (ev_h ((?e # new) ! i)) = (sp = Test)"
    proof (cases j)
      case 0
      with j n(4) have "ev_h (new ! 0) = h'" by (cases new) auto
      with ij 0 a show ?thesis by simp
    next
      case (Suc j')
      with n(5) j have "requires_grad (ev_h (new ! j)) = (sp = Test)" by auto
      with ij show ?thesis by simp
    qed
  qed
  have fin: "requires_grad (es_h s') = (sp = Test)"
    using n(6,7) a by (cases "ks = []") auto
  show ?case
    apply (rule exI[of _ "?e # new"])
    using n(1,2,3) a hs fin by simp
qed

lemma egcno_eval_split_Inr:
  assumes "egcno_eval_split X sp D N w h = Inr s"
  shows "map ev_key (es_steps s) = map fst (ed_edge_index D) \<and> es_steps s \<noteq> [] \<and>
         \<not> ed_edge_attr D \<and>
         (\<forall>e\<in>set (es_steps s). ev_weight e = replicate (length (ev_fed e)) 1 \<and>
                         map_of (ed_edge_index D) (ev_key e) = Some (ev_fed e)) \<and>
         ev_h (hd (es_steps s)) = detach h \<and>
         (\<forall>i<length (es_steps s). 0 < i \<longrightarrow> requires_grad (ev_h (es_steps s ! i)) = (sp = Test)) \<and>
         requires_grad (es_h s) = (sp = Test)"
proof -
  let ?s0 = "\<lparr>es_world = w, es_h = detach h, es_perf = [], es_steps = []\<rparr>"
  from assms have ne: "ed_edge_index D \<noteq> []" and
    loop: "egcno_eval_loop X sp D N ?s0 (map fst (ed_edge_index D)) = Inr s"
    by (auto simp: egcno_eval_split_def split: if_splits)
  from egcno_eval_loop_Inr[OF loop] obtain new where n:
    "es_steps s = es_steps ?s0 @ new" "map ev_key new = map fst (ed_edge_index D)"
    "\<forall>e\<in>set new. ev_weight e = replicate (length (ev_fed e)) 1 \<and>
                         map_of (ed_edge_index D) (ev_key e) = Some (ev_fed e)"
    "new \<noteq> [] \<longrightarrow> ev_h (hd new) = es_h ?s0"
    "\<forall>i<length new. 0 < i \<longrightarrow> requires_grad (ev_h (new ! i)) = (sp = Test)"
    "map fst (ed_edge_index D) \<noteq> [] \<longrightarrow> requires_grad (es_h s) = (sp = Test) \<and> \<not> ed_edge_attr D"
    by blast
  from n(1) have eq: "es_steps s = new" by simp
  from n(2) ne have nn: "new \<noteq> []" by auto
  with n(4) have "ev_h (hd new) = detach h" by simp
  with n(2,3,5,6) nn ne eq show ?thesis by simp
qed

lemma gclstm_val_advance_Inr:
  assumes "gclstm_val_advance X D ts_min k w hc = Inr (w1, hc')"
  shows "if k > ts_min
         then \<not> gd_edge_attr D \<and> requires_grad (fst hc') \<and> requires_grad (snd hc') \<and>
           (\<exists>prev. map_of (gd_edge_index D) (k - 1) = Some prev \<and>
              (data (fst hc'), data (snd hc')) =
                fst (gc_model X w prev (replicate (length prev) 1) (Some (data (fst hc), data (snd hc)))))
         else hc' = hc \<and> w1 = w"
  using assms
  by (auto simp: gclstm_val_advance_def edge_weights_def
      split: option.splits sum.splits prod.splits if_splits)

section \<open>The EvolveGCN-O epoch loop\<close>

lemma egcno_epoch_entry_ok:
  assumes "egcno_epoch X cfg ds r w epoch = Inr res"
  shows "entry_ok cfg epoch r (fst res)"
  using assms
  by (auto simp: egcno_epoch_def entry_ok_def improved_def egcno_patience_def
      split: sum.splits option.splits pyfloat.splits if_splits)

lemma egcno_run_loop_history:
  "egcno_run_loop X cfg ds s es = Inr s' \<Longrightarrow>
     \<exists>new. rs_history s' = rs_history s @ new \<and> history_ok cfg (rs_record s) es new \<and>
           rs_record s' = (if new = [] then rs_record s else ee_after (last new))"
proof (induction es arbitrary: s)
  case Nil
  then show ?case by simp
next
  case (Cons ep es)
  from Cons.prems obtain res where res: "egcno_epoch X cfg ds (rs_record s) (rs_world s) ep = Inr res"
    by (auto split: sum.splits)
  note ok = egcno_epoch_entry_ok[OF res]
  let ?s1 = "\<lparr>rs_world = snd res, rs_record = ee_after (fst res),
                    rs_history = rs_history s @ [fst res]\<rparr>"
  show ?case
  proof (cases "ee_stop (fst res)")
    case True
    with Cons.prems res have "s' = ?s1" by simp
    with ok True show ?thesis by (intro exI[of _ "[fst res]"]) simp
  next
    case False
    with Cons.prems res have "egcno_run_loop X cfg ds ?s1 es = Inr s'" by simp
    from Cons.IH[OF this] obtain new where n: "rs_history s' = rs_history ?s1 @ new"
      "history_ok cfg (rs_record ?s1) es new"
      "rs_record s' = (if new = [] then rs_record ?s1 else ee_after (last new))" by blast
    with ok False show ?thesis by (intro exI[of _ "fst res # new"]) simp
  qed
qed

lemma egcno_run_history:
  assumes "egcno_run X cfg ds w = Inr s"
  shows "history_ok cfg \<lparr>best_val = 0, best_test = Fl 0, best_epoch = 0\<rparr>
           [0 ..< cfg_max_epoch cfg] (rs_history s)"
  using egcno_run_loop_history[OF assms[unfolded egcno_run_def]] by simp

text \<open>Each entry of the history and each world of the run come from the calls the epoch
  made, the test pass among them exactly in the improving epochs.\<close>

lemma egcno_epoch_calls:
  assumes "egcno_epoch X cfg ds r w ep = Inr res"
  shows "epoch_calls X ds w (fst res) (snd res)"
proof -
  from assms obtain tr where tr: "egcno_train_epoch X (train_split ds) w = Inr tr"
    by (auto simp: egcno_epoch_def split: sum.splits)
  from assms tr obtain h where h: "ts_h tr = Some h"
    by (auto simp: egcno_epoch_def split: option.splits)
  from assms tr h obtain ev where ev:
    "egcno_eval_split X Val (val_split ds) (td_num_nodes (train_split ds) + 1) (ts_world tr) h = Inr ev"
    by (auto simp: egcno_epoch_def num_nodes_of_def split: sum.splits)
  have rest: "ee_val (fst res) = np_mean (es_perf ev) \<and>
        (if improved (fst res)
         then \<exists>te. egcno_eval_split X Test (test_split ds) (td_num_nodes (train_split ds) + 1)
                      (es_world ev) (es_h ev) = Inr te \<and>
                    snd res = es_world te \<and> best_test (ee_after (fst res)) = np_mean (es_perf te)
         else snd res = es_world ev \<and> best_test (ee_after (fst res)) = best_test (ee_before (fst res)))"
    using assms tr h ev
    by (auto simp: egcno_epoch_def num_nodes_of_def improved_def egcno_patience_def
        split: pyfloat.splits sum.splits if_splits)
  show ?thesis
    unfolding epoch_calls_def
    using tr h ev rest by blast
qed

lemma egcno_run_loop_calls:
  "egcno_run_loop X cfg ds s es = Inr s' \<Longrightarrow>
     \<exists>new ws. rs_history s' = rs_history s @ new \<and> length ws = Suc (length new) \<and>
              ws ! 0 = rs_world s \<and> last ws = rs_world s' \<and>
              (\<forall>i<length new. epoch_calls X ds (ws ! i) (new ! i) (ws ! Suc i))"
proof (induction es arbitrary: s)
  case Nil
  then show ?case by (intro exI[of _ "[]"] exI[of _ "[rs_world s]"]) simp
next
  case (Cons ep es)
  from Cons.prems obtain res where res: "egcno_epoch X cfg ds (rs_record s) (rs_world s) ep = Inr res"
    by (auto split: sum.splits)
  note c = egcno_epoch_calls[OF res]
  let ?s1 = "\<lparr>rs_world = snd res, rs_record = ee_after (fst res),
                    rs_history = rs_history s @ [fst res]\<rparr>"
  show ?case
  proof (cases "ee_stop (fst res)")
    case True
    with Cons.prems res have "s' = ?s1" by simp
    with c show ?thesis
      by (intro exI[of _ "[fst res]"] exI[of _ "[rs_world s, snd res]"]) simp
  next
    case False
    with Cons.prems res have "egcno_run_loop X cfg ds ?s1 es = Inr s'" by simp
    from Cons.IH[OF this] obtain new ws where n: "rs_history s' = rs_history ?s1 @ new"
      "length ws = Suc (length new)" "ws ! 0 = rs_world ?s1" "last ws = rs_world s'"
      "\<forall>i<length new. epoch_calls X ds (ws ! i) (new ! i) (ws ! Suc i)" by blast
    from n(2) have wsne: "ws \<noteq> []" by auto
    have all: "\<forall>i<length (fst res # new).
        epoch_calls X ds ((rs_world s # ws) ! i) ((fst res # new) ! i) ((rs_world s # ws) ! Suc i)"
    proof (intro allI impI)
      fix i assume i: "i < length (fst res # new)"
      show "epoch_calls X ds ((rs_world s # ws) ! i) ((fst res # new) ! i) ((rs_world s # ws) ! Suc i)"
      proof (cases i)
        case 0
        with c n(3) show ?thesis by simp
      next
        case (Suc j)
        with i n(5) show ?thesis by simp
      qed
    qed
    show ?thesis
      apply (rule exI[of _ "fst res # new"])
      apply (rule exI[of _ "rs_world s # ws"])
      using n(1,2,4) wsne all by simp
  qed
qed

lemma egcno_run_calls:
  assumes "egcno_run X cfg ds w = Inr s"
  shows "\<exists>ws. length ws = Suc (length (rs_history s)) \<and> ws ! 0 = w \<and> last ws = rs_world s \<and>
              (\<forall>i<length (rs_history s). epoch_calls X ds (ws ! i) (rs_history s ! i) (ws ! Suc i))"
  using egcno_run_loop_calls[OF assms[unfolded egcno_run_def]] by auto

section \<open>Histories of a run\<close>

lemma entry_ok_best_val:
  "entry_ok cfg ep r en \<Longrightarrow> best_val (ee_after en) = best_seen (best_val r) [ee_val en]"
  by (auto simp: entry_ok_def improved_def best_seen_def split: pyfloat.splits if_splits)

lemma entry_ok_mono: "entry_ok cfg ep r en \<Longrightarrow> best_val r \<le> best_val (ee_after en)"
  by (auto simp: entry_ok_def improved_def split: pyfloat.splits if_splits)

lemma entry_ok_best_epoch:
  "entry_ok cfg ep r en \<Longrightarrow> best_epoch (ee_after en) = last_improvement (best_epoch r) [en]"
  by (auto simp: entry_ok_def last_improvement_def split: if_splits)

lemma history_ok_length: "history_ok cfg r es new \<Longrightarrow> length new \<le> length es"
  by (induction cfg r es new rule: history_ok.induct) (auto split: if_splits)

lemma history_ok_epochs: "history_ok cfg r es new \<Longrightarrow> map ee_epoch new = take (length new) es"
  by (induction cfg r es new rule: history_ok.induct) (auto split: if_splits simp: entry_ok_def)

lemma history_ok_stop_last:
  "history_ok cfg r es new \<Longrightarrow> i < length new \<Longrightarrow> ee_stop (new ! i) \<Longrightarrow> Suc i = length new"
proof (induction cfg r es new arbitrary: i rule: history_ok.induct)
  case (3 cfg r ep es en new)
  then show ?case by (cases i) (auto split: if_splits)
qed auto

lemma history_ok_complete:
  "history_ok cfg r es new \<Longrightarrow> \<forall>e\<in>set new. \<not> ee_stop e \<Longrightarrow> length new = length es"
  by (induction cfg r es new rule: history_ok.induct) (auto split: if_splits)

lemma history_ok_before:
  "history_ok cfg r es new \<Longrightarrow> i < length new \<Longrightarrow>
     ee_before (new ! i) = (if i = 0 then r else ee_after (new ! (i - 1)))"
proof (induction cfg r es new arbitrary: i rule: history_ok.induct)
  case (3 cfg r ep es en new)
  show ?case
  proof (cases i)
    case 0
    with 3 show ?thesis by (simp add: entry_ok_def)
  next
    case (Suc j)
    with 3 show ?thesis by (cases j) (auto split: if_splits)
  qed
qed auto

lemma history_ok_entry:
  "history_ok cfg r es new \<Longrightarrow> i < length new \<Longrightarrow>
     entry_ok cfg (es ! i) (ee_before (new ! i)) (new ! i)"
proof (induction cfg r es new arbitrary: i rule: history_ok.induct)
  case (3 cfg r ep es en new)
  then show ?case by (cases i) (auto split: if_splits simp: entry_ok_def)
qed auto

lemma best_seen_Cons: "best_seen b (v # vs) = best_seen (best_seen b [v]) vs"
  by (simp add: best_seen_def)

lemma last_improvement_Cons:
  "last_improvement b (e # es) = last_improvement (last_improvement b [e]) es"
  by (simp add: last_improvement_def)

lemma history_ok_best_seen:
  "history_ok cfg r es new \<Longrightarrow> i < length new \<Longrightarrow>
     best_val (ee_before (new ! i)) = best_seen (best_val r) (map ee_val (take i new))"
proof (induction cfg r es new arbitrary: i rule: history_ok.induct)
  case (3 cfg r ep es en new)
  show ?case
  proof (cases i)
    case 0
    with 3 show ?thesis by (simp add: entry_ok_def best_seen_def)
  next
    case (Suc j)
    with 3 have "best_val (ee_before (new ! j)) = best_seen (best_val (ee_after en)) (map ee_val (take j new))"
      by (auto split: if_splits)
    moreover from 3 have "best_val (ee_after en) = best_seen (best_val r) [ee_val en]"
      by (intro entry_ok_best_val[of cfg ep]) simp
    moreover have "best_seen (best_val r) (ee_val en # map ee_val (take j new)) =
        best_seen (best_seen (best_val r) [ee_val en]) (map ee_val (take j new))"
      by (rule best_seen_Cons)
    ultimately show ?thesis using Suc by simp
  qed
qed auto

lemma history_ok_last_improvement:
  "history_ok cfg r es new \<Longrightarrow> i < length new \<Longrightarrow>
     best_epoch (ee_before (new ! i)) = last_improvement (best_epoch r) (take i new)"
proof (induction cfg r es new arbitrary: i rule: history_ok.induct)
  case (3 cfg r ep es en new)
  show ?case
  proof (cases i)
    case 0
    with 3 show ?thesis by (simp add: entry_ok_def last_improvement_def)
  next
    case (Suc j)
    with 3 have "best_epoch (ee_before (new ! j)) = last_improvement (best_epoch (ee_after en)) (take j new)"
      by (auto split: if_splits)
    moreover from 3 have "best_epoch (ee_after en) = last_improvement (best_epoch r) [en]"
      by (intro entry_ok_best_epoch[of cfg ep]) simp
    moreover have "last_improvement (best_epoch r) (en # take j new) =
        last_improvement (last_improvement (best_epoch r) [en]) (take j new)"
      by (rule last_improvement_Cons)
    ultimately show ?thesis using Suc by simp
  qed
qed auto

lemma history_ok_sorted:
  "history_ok cfg r es new \<Longrightarrow> sorted (best_val r # map (\<lambda>e. best_val (ee_after e)) new)"
proof (induction cfg r es new rule: history_ok.induct)
  case (3 cfg r ep es en new)
  then have ok: "entry_ok cfg ep r en" by simp
  show ?case
  proof (cases "ee_stop en")
    case True
    with 3 ok show ?thesis by (simp add: entry_ok_mono)
  next
    case False
    with 3 have "sorted (best_val (ee_after en) # map (\<lambda>e. best_val (ee_after e)) new)" by simp
    with entry_ok_mono[OF ok] show ?thesis by auto
  qed
qed auto

lemma history_ok_splits:
  "history_ok cfg r es new \<Longrightarrow> e \<in> set new \<Longrightarrow>
     ee_splits e = (if improved e then [Val, Test] else [Val])"
  by (induction cfg r es new rule: history_ok.induct) (auto split: if_splits simp: entry_ok_def)

lemma history_ok_best_epoch_le:
  "history_ok cfg r [k ..< n] new \<Longrightarrow> best_epoch r \<le> k \<Longrightarrow> e \<in> set new \<Longrightarrow>
     best_epoch (ee_before e) \<le> ee_epoch e"
proof (induction new arbitrary: r k)
  case Nil
  then show ?case by simp
next
  case (Cons en new)
  from Cons.prems(1) have kn: "k < n" by (cases "k < n") auto
  then have upt: "[k ..< n] = k # [Suc k ..< n]" by (simp add: upt_rec)
  from Cons.prems(1) upt have ok: "entry_ok cfg k r en" by simp
  show ?case
  proof (cases "e = en")
    case True
    with ok Cons.prems(2) show ?thesis by (simp add: entry_ok_def)
  next
    case False
    with Cons.prems have mem: "e \<in> set new" by simp
    then have "new \<noteq> []" by auto
    with Cons.prems(1) upt have h: "history_ok cfg (ee_after en) [Suc k ..< n] new"
      by (auto split: if_splits)
    from ok Cons.prems(2) have "best_epoch (ee_after en) \<le> Suc k"
      by (auto simp: entry_ok_def split: if_splits)
    from Cons.IH[OF h this mem] show ?thesis .
  qed
qed

lemma count_tests:
  "\<forall>e\<in>set h. ee_splits e = (if improved e then [Val, Test] else [Val]) \<Longrightarrow>
     length (filter (\<lambda>sp. sp = Test) (concat (map ee_splits h))) = length (filter improved h)"
  by (induction h) auto

lemma history_ok_continue:
  "history_ok cfg r es new \<Longrightarrow> i < length new \<Longrightarrow> \<not> ee_stop (new ! i) \<Longrightarrow>
     Suc i < length es \<Longrightarrow> Suc i < length new"
proof (induction cfg r es new arbitrary: i rule: history_ok.induct)
  case (3 cfg r ep es en new)
  show ?case
  proof (cases i)
    case 0
    with 3 show ?thesis by (cases es; cases new) auto
  next
    case (Suc j)
    with 3 show ?thesis by (auto split: if_splits)
  qed
qed auto

lemma history_ok_epoch_nth:
  assumes "history_ok cfg r [0 ..< n] new" "i < length new"
  shows "ee_epoch (new ! i) = i"
proof -
  from history_ok_epochs[OF assms(1)] have "map ee_epoch new = take (length new) [0 ..< n]" .
  moreover from history_ok_length[OF assms(1)] have "length new \<le> n" by simp
  ultimately have "map ee_epoch new = [0 ..< length new]" by (simp add: take_upt)
  then have "map ee_epoch new ! i = i" using assms(2) by simp
  with assms(2) show ?thesis by simp
qed

lemma entry_ok_stop:
  "entry_ok cfg ep r en \<Longrightarrow>
     ee_stop en = (improved en \<and> 1 < ep \<and> cfg_patience cfg \<le> int ep - int (best_epoch r))"
  by (auto simp: entry_ok_def split: if_splits)

section \<open>The GC-LSTM epoch loop\<close>

lemma gclstm_epoch_entry:
  "gclstm_epoch X ds w e = Inr res \<Longrightarrow> ge_epoch (fst res) = e \<and> ge_splits (fst res) = [Val]"
  by (auto simp: gclstm_epoch_def split: sum.splits option.splits)

lemma gclstm_run_loop_entries:
  "gclstm_run_loop X ds s es = Inr s' \<Longrightarrow>
     \<exists>new. snd s' = snd s @ new \<and> map ge_epoch new = es \<and> (\<forall>e\<in>set new. ge_splits e = [Val])"
proof (induction es arbitrary: s)
  case Nil
  then show ?case by simp
next
  case (Cons e es)
  from Cons.prems obtain res where res: "gclstm_epoch X ds (fst s) e = Inr res"
    and rest: "gclstm_run_loop X ds (snd res, snd s @ [fst res]) es = Inr s'"
    by (auto split: sum.splits)
  from Cons.IH[OF rest] obtain new where
    "snd s' = (snd s @ [fst res]) @ new" "map ge_epoch new = es" "\<forall>e\<in>set new. ge_splits e = [Val]"
    by auto
  with gclstm_epoch_entry[OF res] show ?case
    by (intro exI[of _ "fst res # new"]) simp
qed

lemma gclstm_run_entries:
  assumes "gclstm_run X ds w = Inr g"
  shows "map ge_epoch (snd g) = [0 ..< 200] \<and> (\<forall>e\<in>set (snd g). ge_splits e = [Val])"
  using gclstm_run_loop_entries[OF assms[unfolded gclstm_run_def]] by simp

section \<open>The scripts run on the concrete data\<close>

lemmas demo_eval_simps =
  egcno_train_epoch_def egcno_train_snapshot_def egcno_train_feed_def
  demo_externals_def demo_train_def demo_dataset_def num_nodes_of_def snapshot_at_def
  edge_weights_def in_range_def upt_rec egcno_eval_split_def egcno_eval_advance_def
  detach_def np_mean_def egcno_epoch_def egcno_patience_def egcno_run_def

lemmas gc_demo_eval_simps =
  gclstm_train_epoch_def gclstm_train_snapshot_def gclstm_train_feed_def
  gc_demo_externals_def gc_demo_train_def gc_single_train_def gc_demo_val_def
  gc_demo_dataset_def num_nodes_of_def snapshot_at_def edge_weights_def in_range_def upt_rec
  gclstm_validate_def gclstm_val_advance_def detach_def np_mean_def gclstm_epoch_def

lemma demo_train_epoch_0:
  "egcno_train_epoch demo_externals demo_train 0 =
     Inr \<lparr>ts_world = 1, ts_h = Some (Tensor 1 True), ts_total_loss = 2,
        ts_steps =
          [\<lparr>st_idx = 0, st_fed = [(0, 1)], st_weight = [1],
              st_h = Tensor 1 True, st_pos = [(0, 1)], st_neg_dst = [1],
              st_pos_out = 0, st_neg_out = 0, st_loss = 1\<rparr>,
           \<lparr>st_idx = 1, st_fed = [(0, 1)], st_weight = [1],
              st_h = Tensor 1 True, st_pos = [(2, 1)], st_neg_dst = [1],
              st_pos_out = 0, st_neg_out = 0, st_loss = 1\<rparr>],
        ts_opt = [2]\<rparr>"
  by (simp add: demo_eval_simps)

lemma gc_demo_train_epoch_0:
  "gclstm_train_epoch gc_demo_externals gc_demo_train 0 =
   Inr \<lparr>gt_world = 1, gt_hc = Some (Tensor 2 True, Tensor 0 True),
        gt_loss = 3, gt_total_loss = 5,
        gt_steps =
          [\<lparr>gs_idx = 0, gs_current = [(0, 1)], gs_fed = [(0, 1)],
              gs_weight = [1], gs_h = Tensor 1 True, gs_pos = [(0, 1)],
              gs_neg = [(0, 0)], gs_pos_out = 0, gs_neg_out = 0,
              gs_loss_before = 0, gs_loss = 1\<rparr>,
           \<lparr>gs_idx = 1, gs_current = [(1, 2), (2, 0)], gs_fed = [(0, 1)],
              gs_weight = [1], gs_h = Tensor 1 True, gs_pos = [(0, 1)],
              gs_neg = [(1, 0), (2, 0)], gs_pos_out = 0, gs_neg_out = 0,
              gs_loss_before = 1, gs_loss = 1\<rparr>,
           \<lparr>gs_idx = 2, gs_current = [(2, 1)], gs_fed = [(1, 2), (2, 0)],
              gs_weight = [1, 1], gs_h = Tensor 2 True,
              gs_pos = [(1, 2), (2, 0)], gs_neg = [(2, 0)], gs_pos_out = 0,
              gs_neg_out = 0, gs_loss_before = 2, gs_loss = 1\<rparr>],
        gt_opt = [3]\<rparr>"
  by (simp add: gc_demo_eval_simps)

lemma demo_train_epoch_1:
  "egcno_train_epoch demo_externals demo_train 1 =
     Inr \<lparr>ts_world = 2, ts_h = Some (Tensor 1 True), ts_total_loss = 2,
        ts_steps =
          [\<lparr>st_idx = 0, st_fed = [(0, 1)], st_weight = [1],
              st_h = Tensor 1 True, st_pos = [(0, 1)], st_neg_dst = [3],
              st_pos_out = 1, st_neg_out = 1, st_loss = 1\<rparr>,
           \<lparr>st_idx = 1, st_fed = [(0, 1)], st_weight = [1],
              st_h = Tensor 1 True, st_pos = [(2, 1)], st_neg_dst = [3],
              st_pos_out = 1, st_neg_out = 1, st_loss = 1\<rparr>],
        ts_opt = [2]\<rparr>"
  by (simp add: demo_eval_simps)

lemma gc_single_train_epoch_0:
  "gclstm_train_epoch gc_demo_externals gc_single_train 0 =
   Inr \<lparr>gt_world = 1, gt_hc = Some (Tensor 2 True, Tensor 0 True),
        gt_loss = 1, gt_total_loss = 0,
        gt_steps =
          [\<lparr>gs_idx = 0, gs_current = [(0, 1), (1, 2)], gs_fed = [(0, 1), (1, 2)],
              gs_weight = [1, 1], gs_h = Tensor 2 True, gs_pos = [(0, 1), (1, 2)],
              gs_neg = [(0, 0), (1, 0)], gs_pos_out = 0, gs_neg_out = 0,
              gs_loss_before = 0, gs_loss = 1\<rparr>],
        gt_opt = [1]\<rparr>"
  by (simp add: gc_demo_eval_simps)

lemma demo_run_patience_2:
  "egcno_run demo_externals \<lparr>cfg_max_epoch = 4, cfg_patience = 2\<rparr> demo_dataset 0 =
   Inr \<lparr>rs_world = 3,
        rs_record = \<lparr>best_val = 3, best_test = Fl 3, best_epoch = 2\<rparr>,
        rs_history =
          [\<lparr>ee_epoch = 0, ee_val = Fl 1,
              ee_before = \<lparr>best_val = 0, best_test = Fl 0, best_epoch = 0\<rparr>,
              ee_after = \<lparr>best_val = 1, best_test = Fl 1, best_epoch = 0\<rparr>,
              ee_splits = [Val, Test], ee_stop = False\<rparr>,
           \<lparr>ee_epoch = 1, ee_val = Fl 0,
              ee_before = \<lparr>best_val = 1, best_test = Fl 1, best_epoch = 0\<rparr>,
              ee_after = \<lparr>best_val = 1, best_test = Fl 1, best_epoch = 0\<rparr>,
              ee_splits = [Val], ee_stop = False\<rparr>,
           \<lparr>ee_epoch = 2, ee_val = Fl 3,
              ee_before = \<lparr>best_val = 1, best_test = Fl 1, best_epoch = 0\<rparr>,
              ee_after = \<lparr>best_val = 3, best_test = Fl 3, best_epoch = 2\<rparr>,
              ee_splits = [Val, Test], ee_stop = True\<rparr>]\<rparr>"
  by (simp add: demo_eval_simps)

lemma demo_run_patience_100:
  "egcno_run demo_externals \<lparr>cfg_max_epoch = 3, cfg_patience = 100\<rparr> demo_dataset 0 =
   Inr \<lparr>rs_world = 3,
        rs_record = \<lparr>best_val = 3, best_test = Fl 3, best_epoch = 2\<rparr>,
        rs_history =
          [\<lparr>ee_epoch = 0, ee_val = Fl 1,
              ee_before = \<lparr>best_val = 0, best_test = Fl 0, best_epoch = 0\<rparr>,
              ee_after = \<lparr>best_val = 1, best_test = Fl 1, best_epoch = 0\<rparr>,
              ee_splits = [Val, Test], ee_stop = False\<rparr>,
           \<lparr>ee_epoch = 1, ee_val = Fl 0,
              ee_before = \<lparr>best_val = 1, best_test = Fl 1, best_epoch = 0\<rparr>,
              ee_after = \<lparr>best_val = 1, best_test = Fl 1, best_epoch = 0\<rparr>,
              ee_splits = [Val], ee_stop = False\<rparr>,
           \<lparr>ee_epoch = 2, ee_val = Fl 3,
              ee_before = \<lparr>best_val = 1, best_test = Fl 1, best_epoch = 0\<rparr>,
              ee_after = \<lparr>best_val = 3, best_test = Fl 3, best_epoch = 2\<rparr>,
              ee_splits = [Val, Test], ee_stop = False\<rparr>]\<rparr>"
  by (simp add: demo_eval_simps)

lemma gc_demo_epoch:
  "gclstm_epoch gc_demo_externals gc_demo_dataset w e =
     Inr (\<lparr>ge_epoch = e, ge_val = Fl (real (Suc w)), ge_splits = [Val]\<rparr>, Suc w)"
  by (simp add: gc_demo_eval_simps)

lemma gc_demo_run_loop:
  "gclstm_run_loop gc_demo_externals gc_demo_dataset (w, h) es =
     Inr (w + length es,
          h @ map (\<lambda>i. \<lparr>ge_epoch = es ! i, ge_val = Fl (real (Suc (w + i))), ge_splits = [Val]\<rparr>)
                [0 ..< length es])"
proof (induction es arbitrary: w h)
  case Nil
  then show ?case by simp
next
  case (Cons e es)
  have "[0 ..< length (e # es)] = 0 # map Suc [0 ..< length es]"
    by (metis length_Cons upt_conv_Cons zero_less_Suc map_Suc_upt)
  then show ?case by (simp add: gc_demo_epoch Cons.IH comp_def del: upt_Suc)
qed

lemma gc_demo_run:
  "gclstm_run gc_demo_externals gc_demo_dataset 0 =
     Inr (200, map (\<lambda>i. \<lparr>ge_epoch = i, ge_val = Fl (real (Suc i)), ge_splits = [Val]\<rparr>)
                [0 ..< 200])"
proof -
  have "map (\<lambda>i. \<lparr>ge_epoch = [0 ..< 200] ! i, ge_val = Fl (real (Suc (0 + i))), ge_splits = [Val]\<rparr>)
                [0 ..< length [0 ..< (200::nat)]] =
        map (\<lambda>i. \<lparr>ge_epoch = i, ge_val = Fl (real (Suc i)), ge_splits = [Val]\<rparr>) [0 ..< 200]"
    by (intro map_cong) (simp_all del: upt_Suc)
  then show ?thesis
    unfolding gclstm_run_def gc_demo_run_loop by (simp del: upt_Suc)
qed

lemma demo_val_eval:
  "egcno_eval_split demo_externals Val (val_split demo_dataset) 4 1 (Tensor 1 True) =
   Inr \<lparr>es_world = 1, es_h = Tensor 1 False, es_perf = [1, 1],
        es_steps =
          [\<lparr>ev_key = 2, ev_h = Tensor 1 False, ev_fed = [(0, 2)], ev_weight = [1]\<rparr>,
           \<lparr>ev_key = 3, ev_h = Tensor 1 False, ev_fed = [(2, 1)], ev_weight = [1]\<rparr>]\<rparr>"
  by (simp add: demo_eval_simps)

lemma demo_test_eval:
  "egcno_eval_split demo_externals Test (test_split demo_dataset) 4 1 (Tensor 1 False) =
   Inr \<lparr>es_world = 1, es_h = Tensor 1 True, es_perf = [1, 1],
        es_steps =
          [\<lparr>ev_key = 4, ev_h = Tensor 1 False, ev_fed = [(1, 0)], ev_weight = [1]\<rparr>,
           \<lparr>ev_key = 5, ev_h = Tensor 1 True, ev_fed = [(2, 0)], ev_weight = [1]\<rparr>]\<rparr>"
  by (simp add: demo_eval_simps)

lemma gc_demo_validate:
  "gclstm_validate gc_demo_externals gc_demo_val 4 1 (Tensor 2 True, Tensor 0 True) =
   Inr \<lparr>gv_world = 1, gv_hc = (Tensor 1 True, Tensor 0 True),
        gv_perf = [1, 1, 1, 1],
        gv_steps =
          [(3, Tensor 2 False, Tensor 0 False),
           (4, Tensor 1 True, Tensor 0 True)]\<rparr>"
  by (simp add: gc_demo_eval_simps)

lemma log_train_epoch:
  "egcno_train_epoch log_externals demo_train [] =
     Inr \<lparr>ts_world = [ZeroGrad, Backward 2, Step], ts_h = Some (Tensor 1 True),
          ts_total_loss = 2,
        ts_steps =
          [\<lparr>st_idx = 0, st_fed = [(0, 1)], st_weight = [1],
              st_h = Tensor 1 True, st_pos = [(0, 1)], st_neg_dst = [0],
              st_pos_out = 0, st_neg_out = 0, st_loss = 1\<rparr>,
           \<lparr>st_idx = 1, st_fed = [(0, 1)], st_weight = [1],
              st_h = Tensor 1 True, st_pos = [(2, 1)], st_neg_dst = [0],
              st_pos_out = 0, st_neg_out = 0, st_loss = 1\<rparr>],
        ts_opt = [2]\<rparr>"
  by (simp add: egcno_train_epoch_def egcno_train_snapshot_def egcno_train_feed_def
      log_externals_def demo_train_def num_nodes_of_def snapshot_at_def edge_weights_def
      in_range_def upt_rec)

lemma gc_log_train_epoch:
  "gclstm_train_epoch gc_log_externals gc_demo_train [] =
   Inr \<lparr>gt_world = [Backward 3, Step, ZeroGrad], gt_hc = Some (Tensor 2 True, Tensor 0 True),
        gt_loss = 3, gt_total_loss = 5,
        gt_steps =
          [\<lparr>gs_idx = 0, gs_current = [(0, 1)], gs_fed = [(0, 1)],
              gs_weight = [1], gs_h = Tensor 1 True, gs_pos = [(0, 1)],
              gs_neg = [(0, 0)], gs_pos_out = 0, gs_neg_out = 0,
              gs_loss_before = 0, gs_loss = 1\<rparr>,
           \<lparr>gs_idx = 1, gs_current = [(1, 2), (2, 0)], gs_fed = [(0, 1)],
              gs_weight = [1], gs_h = Tensor 1 True, gs_pos = [(0, 1)],
              gs_neg = [(1, 0), (2, 0)], gs_pos_out = 0, gs_neg_out = 0,
              gs_loss_before = 1, gs_loss = 1\<rparr>,
           \<lparr>gs_idx = 2, gs_current = [(2, 1)], gs_fed = [(1, 2), (2, 0)],
              gs_weight = [1, 1], gs_h = Tensor 2 True,
              gs_pos = [(1, 2), (2, 0)], gs_neg = [(2, 0)], gs_pos_out = 0,
              gs_neg_out = 0, gs_loss_before = 2, gs_loss = 1\<rparr>],
        gt_opt = [3]\<rparr>"
  by (simp add: gclstm_train_epoch_def gclstm_train_snapshot_def gclstm_train_feed_def
      gc_log_externals_def gc_demo_train_def num_nodes_of_def snapshot_at_def edge_weights_def
      in_range_def upt_rec)

lemma log_view:
  "optimizer_view log_externals (\<lambda>w. w) (\<lambda>l. l @ [ZeroGrad]) (\<lambda>x l. l @ [Backward x])
     (\<lambda>l. l @ [Step])"
  by (simp add: optimizer_view_def log_externals_def)

lemma gc_log_view:
  "gc_optimizer_view gc_log_externals (\<lambda>w. w) (\<lambda>l. l @ [ZeroGrad]) (\<lambda>x l. l @ [Backward x])
     (\<lambda>l. l @ [Step])"
  by (simp add: gc_optimizer_view_def gc_log_externals_def)

section \<open>Which edges are scored with which embedding\<close>

text \<open>
  Claim C1. The embedding that scores the positive edges of snapshot \<open>t\<close> comes from
  advancing the encoder on snapshot \<open>t - 1\<close> (on snapshot 0 for \<open>t = 0\<close>), never on
  snapshot \<open>t\<close> itself. The EvolveGCN-O loop does this (\<open>egcno_feed_shift\<close>). The GC-LSTM
  loop does not: on three snapshots that all differ, iteration 2 feeds the edges of
  snapshot 1 and scores those same edges as its positives, iteration 1 scores the edges
  of snapshot 0 a second time, and the edges of snapshot 2 are never scored.
\<close>

theorem gclstm_positives_are_fed_edges:
  "td_edge_index gc_demo_train = [[(0, 1)], [(1, 2), (2, 0)], [(2, 1)]] \<and>
   map (\<lambda>e. (gs_idx e, gs_fed e, gs_pos e))
     (gt_steps (projr (gclstm_train_epoch gc_demo_externals gc_demo_train 0))) =
   [(0, [(0, 1)], [(0, 1)]),
    (1, [(0, 1)], [(0, 1)]),
    (2, [(1, 2), (2, 0)], [(1, 2), (2, 0)])]"
  by (simp add: gc_demo_train_epoch_0) (simp add: gc_demo_train_def)

section \<open>When the test split is evaluated\<close>

text \<open>
  Claim C2, as stated: in every epoch of a run the test split is evaluated if and only if
  the validation metric of the epoch strictly exceeds the best one seen so far. The
  GC-LSTM script has no test evaluation at all: on the concrete data its validation
  metric is 1 in epoch 0 and 2 in epoch 1, a strict improvement, and both epochs
  evaluate the validation split only.
\<close>

theorem gclstm_no_test_counterexample:
  "\<not> isl (gclstm_run gc_demo_externals gc_demo_dataset 0) \<and>
   ge_val (snd (projr (gclstm_run gc_demo_externals gc_demo_dataset 0)) ! 0) = Fl 1 \<and>
   ge_val (snd (projr (gclstm_run gc_demo_externals gc_demo_dataset 0)) ! 1) = Fl 2 \<and>
   ge_splits (snd (projr (gclstm_run gc_demo_externals gc_demo_dataset 0)) ! 0) = [Val] \<and>
   ge_splits (snd (projr (gclstm_run gc_demo_externals gc_demo_dataset 0)) ! 1) = [Val]"
  by (simp add: gc_demo_run del: upt_Suc)

text \<open>
  Claim C2, amended. In every epoch of a completed run of the EvolveGCN-O script the
  test-split evaluation executes if and only if the validation metric of the epoch
  strictly exceeds the best validation metric seen so far in the run, as \<open>best_val\<close>
  holds it. The epochs start one after the other from the world the previous one left;
  each trains, then validates at the world training left, and its validation metric is
  the mean of that pass. In an improving epoch the test pass then runs at the world and
  state validation left, the epoch ends in the world the test pass left and \<open>best_test\<close>
  is its mean; in any other epoch the epoch ends in the world validation left and
  \<open>best_test\<close> is kept. So the number of test evaluations of the run is the number of
  improving epochs. A completed run of the GC-LSTM script has 200 epochs, each
  evaluating the validation split only.
\<close>

theorem test_eval_iff_improved:
  "(egcno_run X cfg ds w = Inr s \<longrightarrow>
      (\<exists>ws. length ws = Suc (length (rs_history s)) \<and> ws ! 0 = w \<and> last ws = rs_world s \<and>
         (\<forall>i<length (rs_history s).
            \<exists>tr h ev.
              egcno_train_epoch X (train_split ds) (ws ! i) = Inr tr \<and> ts_h tr = Some h \<and>
              egcno_eval_split X Val (val_split ds) (td_num_nodes (train_split ds) + 1)
                (ts_world tr) h = Inr ev \<and>
              ee_val (rs_history s ! i) = np_mean (es_perf ev) \<and>
              (if improved (rs_history s ! i)
               then \<exists>te. egcno_eval_split X Test (test_split ds)
                            (td_num_nodes (train_split ds) + 1) (es_world ev) (es_h ev) = Inr te \<and>
                          ws ! Suc i = es_world te \<and>
                          best_test (ee_after (rs_history s ! i)) = np_mean (es_perf te)
               else ws ! Suc i = es_world ev \<and>
                    best_test (ee_after (rs_history s ! i)) =
                      best_test (ee_before (rs_history s ! i))))) \<and>
      (\<forall>i<length (rs_history s).
         best_val (ee_before (rs_history s ! i)) =
           best_seen 0 (map ee_val (take i (rs_history s))) \<and>
         ee_splits (rs_history s ! i) =
           (if improved (rs_history s ! i) then [Val, Test] else [Val])) \<and>
      length (filter (\<lambda>sp. sp = Test) (concat (map ee_splits (rs_history s)))) =
        length (filter improved (rs_history s))) \<and>
   (gclstm_run G gds v = Inr g \<longrightarrow>
      length (snd g) = 200 \<and> (\<forall>e\<in>set (snd g). ge_splits e = [Val]))"
proof (intro conjI impI allI)
  assume a: "egcno_run X cfg ds w = Inr s"
  from egcno_run_calls[OF a, unfolded epoch_calls_def]
  show "\<exists>ws. length ws = Suc (length (rs_history s)) \<and> ws ! 0 = w \<and> last ws = rs_world s \<and>
         (\<forall>i<length (rs_history s).
            \<exists>tr h ev.
              egcno_train_epoch X (train_split ds) (ws ! i) = Inr tr \<and> ts_h tr = Some h \<and>
              egcno_eval_split X Val (val_split ds) (td_num_nodes (train_split ds) + 1)
                (ts_world tr) h = Inr ev \<and>
              ee_val (rs_history s ! i) = np_mean (es_perf ev) \<and>
              (if improved (rs_history s ! i)
               then \<exists>te. egcno_eval_split X Test (test_split ds)
                            (td_num_nodes (train_split ds) + 1) (es_world ev) (es_h ev) = Inr te \<and>
                          ws ! Suc i = es_world te \<and>
                          best_test (ee_after (rs_history s ! i)) = np_mean (es_perf te)
               else ws ! Suc i = es_world ev \<and>
                    best_test (ee_after (rs_history s ! i)) =
                      best_test (ee_before (rs_history s ! i))))" .
  note h = egcno_run_history[OF a]
  have sp: "\<forall>e\<in>set (rs_history s). ee_splits e = (if improved e then [Val, Test] else [Val])"
    using history_ok_splits[OF h] by blast
  then show "length (filter (\<lambda>sp. sp = Test) (concat (map ee_splits (rs_history s)))) =
        length (filter improved (rs_history s))"
    by (rule count_tests)
  fix i assume i: "i < length (rs_history s)"
  from history_ok_best_seen[OF h i]
  show "best_val (ee_before (rs_history s ! i)) = best_seen 0 (map ee_val (take i (rs_history s)))"
    by simp
  from sp i show "ee_splits (rs_history s ! i) =
           (if improved (rs_history s ! i) then [Val, Test] else [Val])"
    by simp
next
  assume a: "gclstm_run G gds v = Inr g"
  note e = gclstm_run_entries[OF a]
  from e have "length (map ge_epoch (snd g)) = length [0 ..< (200::nat)]" by simp
  then show "length (snd g) = 200" by simp
  from e show "\<forall>e\<in>set (snd g). ge_splits e = [Val]" by simp
qed

theorem test_eval_iff_improved_witness:
  "\<not> isl (egcno_run demo_externals \<lparr>cfg_max_epoch = 4, cfg_patience = 2\<rparr> demo_dataset 0) \<and>
   \<not> isl (gclstm_run gc_demo_externals gc_demo_dataset 0) \<and>
   map ee_val (rs_history (projr (egcno_run demo_externals
      \<lparr>cfg_max_epoch = 4, cfg_patience = 2\<rparr> demo_dataset 0))) = [Fl 1, Fl 0, Fl 3] \<and>
   map improved (rs_history (projr (egcno_run demo_externals
      \<lparr>cfg_max_epoch = 4, cfg_patience = 2\<rparr> demo_dataset 0))) = [True, False, True] \<and>
   map ee_splits (rs_history (projr (egcno_run demo_externals
      \<lparr>cfg_max_epoch = 4, cfg_patience = 2\<rparr> demo_dataset 0))) =
     [[Val, Test], [Val], [Val, Test]] \<and>
   map (\<lambda>e. best_test (ee_after e)) (rs_history (projr (egcno_run demo_externals
      \<lparr>cfg_max_epoch = 4, cfg_patience = 2\<rparr> demo_dataset 0))) = [Fl 1, Fl 1, Fl 3] \<and>
   np_mean (es_perf (projr (egcno_eval_split demo_externals Test (test_split demo_dataset) 4 1
      (Tensor 1 False)))) = Fl 1 \<and>
   length (filter (\<lambda>sp. sp = Test) (concat (map ee_splits (rs_history (projr (egcno_run
      demo_externals \<lparr>cfg_max_epoch = 4, cfg_patience = 2\<rparr> demo_dataset 0)))))) = 2 \<and>
   length (snd (projr (gclstm_run gc_demo_externals gc_demo_dataset 0))) = 200"
proof -
  note a = test_eval_iff_improved[of demo_externals "\<lparr>cfg_max_epoch = 4, cfg_patience = 2\<rparr>"
      demo_dataset 0 _ gc_demo_externals gc_demo_dataset 0, unfolded demo_run_patience_2 gc_demo_run]
  from a have l: "length (snd (projr (gclstm_run gc_demo_externals gc_demo_dataset 0))) = 200"
    unfolding gc_demo_run sum.sel by blast
  have t: "np_mean (es_perf (projr (egcno_eval_split demo_externals Test (test_split demo_dataset)
      4 1 (Tensor 1 False)))) = Fl 1"
    unfolding demo_test_eval sum.sel by (simp add: np_mean_def)
  show ?thesis
    unfolding l t by (simp add: demo_run_patience_2 improved_def gc_demo_run del: upt_Suc)
qed

section \<open>The patience check\<close>

text \<open>
  Claim C3. In a completed run of the EvolveGCN-O script the epochs are numbered
  0, 1, 2, ... and an epoch leaves the loop exactly when it improved on \<open>best_val\<close>, its
  number exceeds 1 and its distance to \<open>best_epoch\<close> is at least the patience; the run
  then ends at once with the record that epoch left. Otherwise an improving epoch sets
  \<open>best_epoch\<close> to its own number, a non-improving epoch leaves the record alone, and
  the next epoch, if the epoch limit allows one, starts from that record.
\<close>

theorem patience_check:
  assumes "egcno_run X cfg ds w = Inr s"
  shows "length (rs_history s) \<le> cfg_max_epoch cfg \<and>
     (\<forall>i<length (rs_history s).
        ee_epoch (rs_history s ! i) = i \<and>
        ee_stop (rs_history s ! i) =
          (improved (rs_history s ! i) \<and> 1 < i \<and>
           cfg_patience cfg \<le> int i - int (best_epoch (ee_before (rs_history s ! i)))) \<and>
        (ee_stop (rs_history s ! i) \<longrightarrow>
           Suc i = length (rs_history s) \<and> rs_record s = ee_after (rs_history s ! i)) \<and>
        (\<not> ee_stop (rs_history s ! i) \<longrightarrow>
           (if improved (rs_history s ! i)
            then best_epoch (ee_after (rs_history s ! i)) = i
            else ee_after (rs_history s ! i) = ee_before (rs_history s ! i)) \<and>
           (Suc i < cfg_max_epoch cfg \<longrightarrow>
              Suc i < length (rs_history s) \<and>
              ee_before (rs_history s ! Suc i) = ee_after (rs_history s ! i))))"
proof -
  let ?h = "rs_history s"
  let ?r0 = "\<lparr>best_val = 0, best_test = Fl 0, best_epoch = 0\<rparr>"
  note h = egcno_run_history[OF assms]
  from egcno_run_loop_history[OF assms[unfolded egcno_run_def]]
  have rec: "rs_record s = (if ?h = [] then ?r0 else ee_after (last ?h))" by simp
  from history_ok_length[OF h] have len: "length ?h \<le> cfg_max_epoch cfg" by simp
  have step: "ee_epoch (?h ! i) = i \<and>
        ee_stop (?h ! i) =
          (improved (?h ! i) \<and> 1 < i \<and>
           cfg_patience cfg \<le> int i - int (best_epoch (ee_before (?h ! i)))) \<and>
        (ee_stop (?h ! i) \<longrightarrow> Suc i = length ?h \<and> rs_record s = ee_after (?h ! i)) \<and>
        (\<not> ee_stop (?h ! i) \<longrightarrow>
           (if improved (?h ! i)
            then best_epoch (ee_after (?h ! i)) = i
            else ee_after (?h ! i) = ee_before (?h ! i)) \<and>
           (Suc i < cfg_max_epoch cfg \<longrightarrow>
              Suc i < length ?h \<and> ee_before (?h ! Suc i) = ee_after (?h ! i)))"
    if i: "i < length ?h" for i
  proof -
    from i len have in': "i < cfg_max_epoch cfg" by simp
    from history_ok_entry[OF h i] in'
    have ok: "entry_ok cfg i (ee_before (?h ! i)) (?h ! i)" by simp
    have ep: "ee_epoch (?h ! i) = i" by (rule history_ok_epoch_nth[OF h i])
    note st = entry_ok_stop[OF ok]
    have last: "Suc i = length ?h \<and> rs_record s = ee_after (?h ! i)" if "ee_stop (?h ! i)"
    proof -
      from history_ok_stop_last[OF h i that] have l: "Suc i = length ?h" .
      then have "last ?h = ?h ! i" using i by (metis diff_Suc_1 last_conv_nth length_0_conv nat.distinct(1))
      with rec i l show ?thesis by auto
    qed
    have upd: "if improved (?h ! i) then best_epoch (ee_after (?h ! i)) = i
            else ee_after (?h ! i) = ee_before (?h ! i)"
      using ok by (auto simp: entry_ok_def)
    have cont: "Suc i < length ?h \<and> ee_before (?h ! Suc i) = ee_after (?h ! i)"
      if ns: "\<not> ee_stop (?h ! i)" and lt: "Suc i < cfg_max_epoch cfg"
    proof -
      from history_ok_continue[OF h i ns] lt have l: "Suc i < length ?h" by simp
      from history_ok_before[OF h l] show ?thesis using l by simp
    qed
    from ep st last upd cont show ?thesis by blast
  qed
  from len step show ?thesis by blast
qed

theorem patience_check_witness:
  "\<not> isl (egcno_run demo_externals \<lparr>cfg_max_epoch = 4, cfg_patience = 2\<rparr> demo_dataset 0) \<and>
   map ee_epoch (rs_history (projr (egcno_run demo_externals
      \<lparr>cfg_max_epoch = 4, cfg_patience = 2\<rparr> demo_dataset 0))) = [0, 1, 2] \<and>
   map improved (rs_history (projr (egcno_run demo_externals
      \<lparr>cfg_max_epoch = 4, cfg_patience = 2\<rparr> demo_dataset 0))) = [True, False, True] \<and>
   map ee_stop (rs_history (projr (egcno_run demo_externals
      \<lparr>cfg_max_epoch = 4, cfg_patience = 2\<rparr> demo_dataset 0))) = [False, False, True] \<and>
   map (\<lambda>e. best_epoch (ee_after e)) (rs_history (projr (egcno_run demo_externals
      \<lparr>cfg_max_epoch = 4, cfg_patience = 2\<rparr> demo_dataset 0))) = [0, 0, 2] \<and>
   length (rs_history (projr (egcno_run demo_externals
      \<lparr>cfg_max_epoch = 4, cfg_patience = 2\<rparr> demo_dataset 0))) \<le> 4"
proof -
  from patience_check[OF demo_run_patience_2]
  have "length (rs_history (projr (egcno_run demo_externals
      \<lparr>cfg_max_epoch = 4, cfg_patience = 2\<rparr> demo_dataset 0))) \<le>
      cfg_max_epoch \<lparr>cfg_max_epoch = 4, cfg_patience = 2\<rparr>"
    unfolding demo_run_patience_2 sum.sel by blast
  then have l: "length (rs_history (projr (egcno_run demo_externals
      \<lparr>cfg_max_epoch = 4, cfg_patience = 2\<rparr> demo_dataset 0))) \<le> 4" by simp
  show ?thesis
    unfolding demo_run_patience_2 sum.sel using l[unfolded demo_run_patience_2 sum.sel]
    by (simp add: improved_def)
qed

section \<open>Whether early stopping can fire\<close>

text \<open>
  Claim C4, as stated: with the epoch counter going up by one each iteration the
  difference \<open>epoch - best_epoch\<close> never reaches the patience at the check, so the
  \<open>break\<close> is never taken. On the concrete data with patience 2 and a limit of 4 epochs
  the epochs run are 0, 1, 2; epoch 1 does not improve, so at epoch 2 the difference is
  2, the \<open>break\<close> is taken and epoch 3 never runs.
\<close>

theorem early_stop_counterexample:
  "\<not> isl (egcno_run demo_externals \<lparr>cfg_max_epoch = 4, cfg_patience = 2\<rparr> demo_dataset 0) \<and>
   map ee_epoch (rs_history (projr (egcno_run demo_externals
      \<lparr>cfg_max_epoch = 4, cfg_patience = 2\<rparr> demo_dataset 0))) = [0, 1, 2] \<and>
   best_epoch (ee_before (rs_history (projr (egcno_run demo_externals
      \<lparr>cfg_max_epoch = 4, cfg_patience = 2\<rparr> demo_dataset 0)) ! 2)) = 0 \<and>
   cfg_patience \<lparr>cfg_max_epoch = 4, cfg_patience = 2\<rparr> \<le> int 2 - int 0 \<and>
   map ee_stop (rs_history (projr (egcno_run demo_externals
      \<lparr>cfg_max_epoch = 4, cfg_patience = 2\<rparr> demo_dataset 0))) = [False, False, True]"
  by (simp add: demo_run_patience_2)

text \<open>
  Claim C4, amended. In a completed run, \<open>best_epoch\<close> at the start of an epoch is the
  number of the latest earlier improving epoch (0 if there is none), never above the
  current epoch number; the \<open>break\<close> is taken exactly at an improving epoch with number
  above 1 whose distance to that epoch is at least the patience. When the patience is at
  least the epoch limit the \<open>break\<close> is never taken and the run ends only by reaching
  the limit.
\<close>

theorem early_stop_amended:
  assumes "egcno_run X cfg ds w = Inr s"
  shows "(\<forall>i<length (rs_history s).
        best_epoch (ee_before (rs_history s ! i)) = last_improvement 0 (take i (rs_history s)) \<and>
        best_epoch (ee_before (rs_history s ! i)) \<le> i \<and>
        ee_stop (rs_history s ! i) =
          (improved (rs_history s ! i) \<and> 1 < i \<and>
           cfg_patience cfg \<le> int i - int (last_improvement 0 (take i (rs_history s))))) \<and>
     (int (cfg_max_epoch cfg) \<le> cfg_patience cfg \<longrightarrow>
        (\<forall>e\<in>set (rs_history s). \<not> ee_stop e) \<and> length (rs_history s) = cfg_max_epoch cfg)"
proof -
  let ?h = "rs_history s"
  note h = egcno_run_history[OF assms]
  from history_ok_length[OF h] have len: "length ?h \<le> cfg_max_epoch cfg" by simp
  have step: "best_epoch (ee_before (?h ! i)) = last_improvement 0 (take i ?h) \<and>
        best_epoch (ee_before (?h ! i)) \<le> i \<and>
        ee_stop (?h ! i) =
          (improved (?h ! i) \<and> 1 < i \<and>
           cfg_patience cfg \<le> int i - int (last_improvement 0 (take i ?h)))"
    if i: "i < length ?h" for i
  proof -
    from i len have in': "i < cfg_max_epoch cfg" by simp
    from history_ok_entry[OF h i] in'
    have ok: "entry_ok cfg i (ee_before (?h ! i)) (?h ! i)" by simp
    from history_ok_last_improvement[OF h i]
    have li: "best_epoch (ee_before (?h ! i)) = last_improvement 0 (take i ?h)" by simp
    have ep: "ee_epoch (?h ! i) = i" by (rule history_ok_epoch_nth[OF h i])
    from i have "?h ! i \<in> set ?h" by simp
    from history_ok_best_epoch_le[OF h _ this] ep have le: "best_epoch (ee_before (?h ! i)) \<le> i"
      by simp
    from entry_ok_stop[OF ok] li le show ?thesis by simp
  qed
  have nostop: "(\<forall>e\<in>set ?h. \<not> ee_stop e) \<and> length ?h = cfg_max_epoch cfg"
    if p: "int (cfg_max_epoch cfg) \<le> cfg_patience cfg"
  proof -
    have ns: "\<forall>e\<in>set ?h. \<not> ee_stop e"
    proof
      fix e assume "e \<in> set ?h"
      then obtain i where i: "i < length ?h" and e: "e = ?h ! i" by (auto simp: in_set_conv_nth)
      from i len p have "int i - int (last_improvement 0 (take i ?h)) < cfg_patience cfg" by simp
      with step[OF i] e show "\<not> ee_stop e" by simp
    qed
    from history_ok_complete[OF h ns] ns show ?thesis by simp
  qed
  from step nostop show ?thesis by blast
qed

theorem early_stop_amended_witness:
  "\<not> isl (egcno_run demo_externals \<lparr>cfg_max_epoch = 3, cfg_patience = 100\<rparr> demo_dataset 0) \<and>
   int (cfg_max_epoch \<lparr>cfg_max_epoch = 3, cfg_patience = 100\<rparr>) \<le>
     cfg_patience \<lparr>cfg_max_epoch = 3, cfg_patience = 100\<rparr> \<and>
   map ee_stop (rs_history (projr (egcno_run demo_externals
      \<lparr>cfg_max_epoch = 3, cfg_patience = 100\<rparr> demo_dataset 0))) = [False, False, False] \<and>
   length (rs_history (projr (egcno_run demo_externals
      \<lparr>cfg_max_epoch = 3, cfg_patience = 100\<rparr> demo_dataset 0))) = 3 \<and>
   map (\<lambda>e. best_epoch (ee_before e)) (rs_history (projr (egcno_run demo_externals
      \<lparr>cfg_max_epoch = 3, cfg_patience = 100\<rparr> demo_dataset 0))) = [0, 0, 0]"
proof -
  have p: "int (cfg_max_epoch \<lparr>cfg_max_epoch = 3, cfg_patience = 100\<rparr>) \<le>
     cfg_patience \<lparr>cfg_max_epoch = 3, cfg_patience = 100\<rparr>" by simp
  from early_stop_amended[OF demo_run_patience_100] p
  have "length (rs_history (projr (egcno_run demo_externals
      \<lparr>cfg_max_epoch = 3, cfg_patience = 100\<rparr> demo_dataset 0))) =
      cfg_max_epoch \<lparr>cfg_max_epoch = 3, cfg_patience = 100\<rparr>"
    unfolding demo_run_patience_100 sum.sel by blast
  then have l: "length (rs_history (projr (egcno_run demo_externals
      \<lparr>cfg_max_epoch = 3, cfg_patience = 100\<rparr> demo_dataset 0))) = 3" by simp
  show ?thesis
    unfolding demo_run_patience_100 sum.sel using l[unfolded demo_run_patience_100 sum.sel]
    by simp
qed

section \<open>Gradient history of the state used in evaluation\<close>

text \<open>
  Claim C5. The state carried into or advanced during evaluation never retains gradient
  history. The validation pass of the EvolveGCN-O script keeps to this: it scores both
  snapshots with detached state. Its test pass detaches the state it receives but not the
  state it advances, so the second test snapshot is scored with a tensor that carries
  gradient history, and so is the state the pass leaves behind. The validation pass of
  the GC-LSTM script likewise scores its second snapshot with undetached \<open>h\<close> and \<open>c\<close>.
\<close>

theorem eval_state_keeps_gradient:
  "map (\<lambda>e. requires_grad (ev_h e))
     (es_steps (projr (egcno_eval_split demo_externals Val (val_split demo_dataset) 4 1
        (Tensor 1 True)))) = [False, False] \<and>
   map (\<lambda>e. requires_grad (ev_h e))
     (es_steps (projr (egcno_eval_split demo_externals Test (test_split demo_dataset) 4 1
        (Tensor 1 False)))) = [False, True] \<and>
   requires_grad (es_h (projr (egcno_eval_split demo_externals Test (test_split demo_dataset) 4 1
        (Tensor 1 False)))) \<and>
   map (\<lambda>u. (requires_grad (fst (snd u)), requires_grad (snd (snd u))))
     (gv_steps (projr (gclstm_validate gc_demo_externals gc_demo_val 4 1
        (Tensor 2 True, Tensor 0 True)))) = [(False, False), (True, True)]"
  unfolding demo_val_eval demo_test_eval gc_demo_validate sum.sel by simp


section \<open>One optimizer step per epoch\<close>

text \<open>
  Claim C6. In every training epoch of either script that completes, the snapshot loop
  ran once per snapshot index in increasing order and each iteration contributed the
  criterion of the positive scores against target 1 plus the criterion of the negative
  scores against target 0. The optimizer is called once per epoch, after the loop and on
  the sum of these contributions: the world the EvolveGCN-O epoch leaves is the one
  \<open>optimizer.step()\<close> returns after \<open>backward\<close> of that sum in the world the last
  iteration left, and through any view of the world that the encoder, the decoder and
  the samplers leave alone, a counter of optimizer steps or a log of optimizer calls,
  the whole epoch is seen as \<open>zero_grad\<close>, one \<open>backward\<close> of the sum and one \<open>step\<close>
  (for GC-LSTM: one \<open>backward\<close> of the sum, one \<open>step\<close>, \<open>zero_grad\<close>). A step taken
  inside the snapshot loop would show in every such view.
\<close>

theorem one_optimizer_step_per_epoch:
  "(egcno_train_epoch X D w = Inr s \<longrightarrow>
      map st_idx (ts_steps s) = [0 ..< td_time_length D] \<and>
      (\<forall>e\<in>set (ts_steps s).
         st_loss e = criterion X (st_pos_out e) 1 + criterion X (st_neg_out e) 0) \<and>
      ts_opt s = [sum_list (map st_loss (ts_steps s))] \<and>
      ts_world s =
        opt_step X (backward X
          (foldl (egcno_step_next X (td_num_nodes D + 1)) (zero_grad X w) (ts_steps s))
          (sum_list (map st_loss (ts_steps s)))) \<and>
      (optimizer_view X obs zg bk st \<longrightarrow>
         obs (ts_world s) = st (bk (sum_list (map st_loss (ts_steps s))) (zg (obs w))))) \<and>
   (gclstm_train_epoch G D' v = Inr g \<longrightarrow>
      map gs_idx (gt_steps g) = [0 ..< td_time_length D'] \<and>
      (\<forall>e\<in>set (gt_steps g).
         gs_loss e = gc_criterion G (gs_pos_out e) 1 + gc_criterion G (gs_neg_out e) 0) \<and>
      gt_opt g = [sum_list (map gs_loss (gt_steps g))] \<and>
      (\<exists>v'. gt_world g =
         gc_zero_grad G (gc_opt_step G (gc_backward G v' (sum_list (map gs_loss (gt_steps g)))))) \<and>
      (gc_optimizer_view G gobs gzg gbk gst \<longrightarrow>
         gobs (gt_world g) = gzg (gst (gbk (sum_list (map gs_loss (gt_steps g))) (gobs v)))))"
proof (intro conjI impI)
  assume a: "egcno_train_epoch X D w = Inr s"
  note e = egcno_train_epoch_Inr[OF a]
  from e show "map st_idx (ts_steps s) = [0 ..< td_time_length D]" by simp
  from e show "\<forall>e\<in>set (ts_steps s).
         st_loss e = criterion X (st_pos_out e) 1 + criterion X (st_neg_out e) 0"
    by (simp add: list_all_iff egcno_step_ok_def)
  from e show "ts_opt s = [sum_list (map st_loss (ts_steps s))]" by simp
  from e have tl: "ts_total_loss s = sum_list (map st_loss (ts_steps s))" by simp
  from egcno_train_epoch_tied[OF a] tl
  show "ts_world s =
        opt_step X (backward X
          (foldl (egcno_step_next X (td_num_nodes D + 1)) (zero_grad X w) (ts_steps s))
          (sum_list (map st_loss (ts_steps s))))"
    by (simp add: num_nodes_of_def)
  assume v: "optimizer_view X obs zg bk st"
  from egcno_train_epoch_view[OF v a] tl
  show "obs (ts_world s) = st (bk (sum_list (map st_loss (ts_steps s))) (zg (obs w)))" by simp
next
  assume a: "gclstm_train_epoch G D' v = Inr g"
  note e = gclstm_train_epoch_Inr[OF a]
  from e show "map gs_idx (gt_steps g) = [0 ..< td_time_length D']" by simp
  from e show "\<forall>e\<in>set (gt_steps g).
         gs_loss e = gc_criterion G (gs_pos_out e) 1 + gc_criterion G (gs_neg_out e) 0"
    by (simp add: list_all_iff gclstm_step_ok_def)
  from e show "gt_opt g = [sum_list (map gs_loss (gt_steps g))]" by simp
  from e show "\<exists>v'. gt_world g =
         gc_zero_grad G (gc_opt_step G (gc_backward G v' (sum_list (map gs_loss (gt_steps g)))))"
    by auto
  from e have tl: "gt_loss g = sum_list (map gs_loss (gt_steps g))" by simp
  assume vw: "gc_optimizer_view G gobs gzg gbk gst"
  from gclstm_train_epoch_view[OF vw a] tl
  show "gobs (gt_world g) = gzg (gst (gbk (sum_list (map gs_loss (gt_steps g))) (gobs v)))"
    by simp
qed

theorem one_optimizer_step_per_epoch_witness:
  "\<not> isl (egcno_train_epoch log_externals demo_train []) \<and>
   \<not> isl (gclstm_train_epoch gc_log_externals gc_demo_train []) \<and>
   optimizer_view log_externals (\<lambda>w. w) (\<lambda>l. l @ [ZeroGrad]) (\<lambda>x l. l @ [Backward x])
     (\<lambda>l. l @ [Step]) \<and>
   gc_optimizer_view gc_log_externals (\<lambda>w. w) (\<lambda>l. l @ [ZeroGrad])
     (\<lambda>x l. l @ [Backward x]) (\<lambda>l. l @ [Step]) \<and>
   map st_loss (ts_steps (projr (egcno_train_epoch log_externals demo_train []))) = [1, 1] \<and>
   ts_world (projr (egcno_train_epoch log_externals demo_train [])) =
     [ZeroGrad, Backward (1 + 1), Step] \<and>
   map gs_loss (gt_steps (projr (gclstm_train_epoch gc_log_externals gc_demo_train []))) =
     [1, 1, 1] \<and>
   gt_world (projr (gclstm_train_epoch gc_log_externals gc_demo_train [])) =
     [Backward (1 + 1 + 1), Step, ZeroGrad]"
proof -
  note a = one_optimizer_step_per_epoch[THEN conjunct1, THEN mp, OF log_train_epoch,
      THEN conjunct2, THEN conjunct2, THEN conjunct2, THEN conjunct2, THEN mp, OF log_view]
  note b = one_optimizer_step_per_epoch[THEN conjunct2, THEN mp, OF gc_log_train_epoch,
      THEN conjunct2, THEN conjunct2, THEN conjunct2, THEN conjunct2, THEN mp, OF gc_log_view]
  from a have wa: "ts_world (projr (egcno_train_epoch log_externals demo_train [])) =
     [ZeroGrad, Backward (1 + 1), Step]"
    unfolding log_train_epoch sum.sel by simp
  from b have wb: "gt_world (projr (gclstm_train_epoch gc_log_externals gc_demo_train [])) =
     [Backward (1 + 1 + 1), Step, ZeroGrad]"
    unfolding gc_log_train_epoch sum.sel by simp
  show ?thesis
    unfolding wa wb unfolding log_train_epoch gc_log_train_epoch sum.sel
    using log_view gc_log_view by simp
qed

section \<open>Monotonicity of the best validation metric\<close>

text \<open>
  Claim C7. Within a completed run of the EvolveGCN-O script \<open>best_val\<close> starts at 0, each
  epoch starts from the value the previous one left, and the sequence of values is
  non-decreasing: an improving epoch replaces it by its strictly larger validation
  metric and any other epoch keeps it.
\<close>

theorem best_val_monotone:
  assumes "egcno_run X cfg ds w = Inr s"
  shows "sorted (0 # map (\<lambda>e. best_val (ee_after e)) (rs_history s)) \<and>
     best_val (rs_record s) = last (0 # map (\<lambda>e. best_val (ee_after e)) (rs_history s)) \<and>
     (\<forall>i<length (rs_history s).
        best_val (ee_before (rs_history s ! i)) =
          (0 # map (\<lambda>e. best_val (ee_after e)) (rs_history s)) ! i \<and>
        (if improved (rs_history s ! i)
         then ee_val (rs_history s ! i) = Fl (best_val (ee_after (rs_history s ! i))) \<and>
              best_val (ee_before (rs_history s ! i)) < best_val (ee_after (rs_history s ! i))
         else best_val (ee_after (rs_history s ! i)) = best_val (ee_before (rs_history s ! i))))"
proof -
  let ?h = "rs_history s"
  let ?r0 = "\<lparr>best_val = 0, best_test = Fl 0, best_epoch = 0\<rparr>"
  note h = egcno_run_history[OF assms]
  from egcno_run_loop_history[OF assms[unfolded egcno_run_def]]
  have rec: "rs_record s = (if ?h = [] then ?r0 else ee_after (last ?h))" by simp
  from history_ok_sorted[OF h]
  have srt: "sorted (0 # map (\<lambda>e. best_val (ee_after e)) ?h)" by simp
  have fin: "best_val (rs_record s) = last (0 # map (\<lambda>e. best_val (ee_after e)) ?h)"
    using rec by (simp add: last_map)
  from history_ok_length[OF h] have len: "length ?h \<le> cfg_max_epoch cfg" by simp
  have step: "best_val (ee_before (?h ! i)) = (0 # map (\<lambda>e. best_val (ee_after e)) ?h) ! i \<and>
        (if improved (?h ! i)
         then ee_val (?h ! i) = Fl (best_val (ee_after (?h ! i))) \<and>
              best_val (ee_before (?h ! i)) < best_val (ee_after (?h ! i))
         else best_val (ee_after (?h ! i)) = best_val (ee_before (?h ! i)))"
    if i: "i < length ?h" for i
  proof -
    from i len have in': "i < cfg_max_epoch cfg" by simp
    from history_ok_entry[OF h i] in'
    have ok: "entry_ok cfg i (ee_before (?h ! i)) (?h ! i)" by simp
    from history_ok_before[OF h i] i
    have b: "best_val (ee_before (?h ! i)) = (0 # map (\<lambda>e. best_val (ee_after e)) ?h) ! i"
      by (cases i) auto
    from ok have "if improved (?h ! i)
         then ee_val (?h ! i) = Fl (best_val (ee_after (?h ! i))) \<and>
              best_val (ee_before (?h ! i)) < best_val (ee_after (?h ! i))
         else best_val (ee_after (?h ! i)) = best_val (ee_before (?h ! i))"
      by (auto simp: entry_ok_def improved_def split: pyfloat.splits if_splits)
    with b show ?thesis by blast
  qed
  from srt fin step show ?thesis by blast
qed

theorem best_val_monotone_witness:
  "\<not> isl (egcno_run demo_externals \<lparr>cfg_max_epoch = 4, cfg_patience = 2\<rparr> demo_dataset 0) \<and>
   map ee_val (rs_history (projr (egcno_run demo_externals
      \<lparr>cfg_max_epoch = 4, cfg_patience = 2\<rparr> demo_dataset 0))) = [Fl 1, Fl 0, Fl 3] \<and>
   map (\<lambda>e. best_val (ee_after e)) (rs_history (projr (egcno_run demo_externals
      \<lparr>cfg_max_epoch = 4, cfg_patience = 2\<rparr> demo_dataset 0))) = [1, 1, 3] \<and>
   sorted (0 # map (\<lambda>e. best_val (ee_after e)) (rs_history (projr (egcno_run demo_externals
      \<lparr>cfg_max_epoch = 4, cfg_patience = 2\<rparr> demo_dataset 0))))"
proof -
  from best_val_monotone[OF demo_run_patience_2]
  have s: "sorted (0 # map (\<lambda>e. best_val (ee_after e)) (rs_history (projr (egcno_run demo_externals
      \<lparr>cfg_max_epoch = 4, cfg_patience = 2\<rparr> demo_dataset 0))))"
    unfolding demo_run_patience_2 sum.sel by blast
  show ?thesis
    unfolding demo_run_patience_2 sum.sel using s[unfolded demo_run_patience_2 sum.sel]
    by simp
qed

section \<open>The edge-attribute guard\<close>

text \<open>
  Claim C8. Every state advancement, in either script and on any split, whose feed edges
  were found raises \<open>NotImplementedError\<close> when the split's dictionary has an
  \<open>'edge_attr'\<close> entry, before the encoder is called, and otherwise calls the encoder
  with weight 1 on every feed edge. A training epoch over a non-empty snapshot list
  raises that error exactly when the entry is present; a training or evaluation pass
  that completes had no such entry and fed unit weights throughout.
\<close>

theorem edge_attr_guard:
  "(snapshot_at (td_edge_index D) (t - 1) = Inr fed \<longrightarrow>
      egcno_train_feed X D w t =
        (if td_edge_attr D then Inl NotImplementedError
         else Inr (fed, replicate (length fed) 1,
                   model_fwd X w fed (replicate (length fed) 1)))) \<and>
   (map_of (ed_edge_index E) k = Some prev \<longrightarrow>
      egcno_eval_advance X sp E k w =
        (if ed_edge_attr E then Inl NotImplementedError
         else Inr (prev, replicate (length prev) 1,
                   (case sp of
                      Val \<Rightarrow> detach (Tensor (fst (model_fwd X w prev (replicate (length prev) 1))) True)
                    | Test \<Rightarrow> Tensor (fst (model_fwd X w prev (replicate (length prev) 1))) True),
                   snd (model_fwd X w prev (replicate (length prev) 1))))) \<and>
   ((if t = 0 then Inr pos else snapshot_at (td_edge_index D) (t - 1)) = Inr fed' \<longrightarrow>
      gclstm_train_feed G D v hc pos t =
        (if td_edge_attr D then Inl NotImplementedError
         else Inr (fed', replicate (length fed') 1,
                   gc_model G v fed' (replicate (length fed') 1)
                     (map_option (\<lambda>hc. (data (fst hc), data (snd hc))) hc)))) \<and>
   (ts_min < k' \<and> map_of (gd_edge_index V) (k' - 1) = Some prev' \<longrightarrow>
      gclstm_val_advance G V ts_min k' v hc' =
        (if gd_edge_attr V then Inl NotImplementedError
         else Inr (snd (gc_model G v prev' (replicate (length prev') 1)
                          (Some (data (fst hc'), data (snd hc')))),
                   Tensor (fst (fst (gc_model G v prev' (replicate (length prev') 1)
                          (Some (data (fst hc'), data (snd hc')))))) True,
                   Tensor (snd (fst (gc_model G v prev' (replicate (length prev') 1)
                          (Some (data (fst hc'), data (snd hc')))))) True))) \<and>
   (td_edge_index D \<noteq> [] \<and> 0 < td_time_length D \<longrightarrow>
      (egcno_train_epoch X D w = Inl NotImplementedError) = td_edge_attr D \<and>
      (gclstm_train_epoch G D v = Inl NotImplementedError) = td_edge_attr D) \<and>
   (egcno_train_epoch X D w = Inr s \<longrightarrow>
      \<not> td_edge_attr D \<and>
      (\<forall>e\<in>set (ts_steps s). st_weight e = replicate (length (st_fed e)) 1)) \<and>
   (gclstm_train_epoch G D v = Inr g \<longrightarrow>
      \<not> td_edge_attr D \<and>
      (\<forall>e\<in>set (gt_steps g). gs_weight e = replicate (length (gs_fed e)) 1)) \<and>
   (egcno_eval_split X sp E N w h = Inr es \<longrightarrow>
      \<not> ed_edge_attr E \<and>
      (\<forall>e\<in>set (es_steps es). ev_weight e = replicate (length (ev_fed e)) 1))"
proof (intro conjI impI)
  assume "snapshot_at (td_edge_index D) (t - 1) = Inr fed"
  then show "egcno_train_feed X D w t =
        (if td_edge_attr D then Inl NotImplementedError
         else Inr (fed, replicate (length fed) 1,
                   model_fwd X w fed (replicate (length fed) 1)))"
    by (cases "model_fwd X w fed (replicate (length fed) 1)"; cases "t = 0")
      (simp_all add: egcno_train_feed_def edge_weights_def)
next
  assume "map_of (ed_edge_index E) k = Some prev"
  then show "egcno_eval_advance X sp E k w =
        (if ed_edge_attr E then Inl NotImplementedError
         else Inr (prev, replicate (length prev) 1,
                   (case sp of
                      Val \<Rightarrow> detach (Tensor (fst (model_fwd X w prev (replicate (length prev) 1))) True)
                    | Test \<Rightarrow> Tensor (fst (model_fwd X w prev (replicate (length prev) 1))) True),
                   snd (model_fwd X w prev (replicate (length prev) 1))))"
    by (cases "model_fwd X w prev (replicate (length prev) 1)"; cases sp)
      (simp_all add: egcno_eval_advance_def edge_weights_def)
next
  assume "(if t = 0 then Inr pos else snapshot_at (td_edge_index D) (t - 1)) = Inr fed'"
  then show "gclstm_train_feed G D v hc pos t =
        (if td_edge_attr D then Inl NotImplementedError
         else Inr (fed', replicate (length fed') 1,
                   gc_model G v fed' (replicate (length fed') 1)
                     (map_option (\<lambda>hc. (data (fst hc), data (snd hc))) hc)))"
    by (cases "gc_model G v fed' (replicate (length fed') 1)
                     (map_option (\<lambda>hc. (data (fst hc), data (snd hc))) hc)"; cases "t = 0")
      (simp_all add: gclstm_train_feed_def edge_weights_def)
next
  assume "ts_min < k' \<and> map_of (gd_edge_index V) (k' - 1) = Some prev'"
  then show "gclstm_val_advance G V ts_min k' v hc' =
        (if gd_edge_attr V then Inl NotImplementedError
         else Inr (snd (gc_model G v prev' (replicate (length prev') 1)
                          (Some (data (fst hc'), data (snd hc')))),
                   Tensor (fst (fst (gc_model G v prev' (replicate (length prev') 1)
                          (Some (data (fst hc'), data (snd hc')))))) True,
                   Tensor (snd (fst (gc_model G v prev' (replicate (length prev') 1)
                          (Some (data (fst hc'), data (snd hc')))))) True))"
    by (cases "gc_model G v prev' (replicate (length prev') 1)
                          (Some (data (fst hc'), data (snd hc')))")
      (auto simp add: gclstm_val_advance_def edge_weights_def)
next
  assume a: "td_edge_index D \<noteq> [] \<and> 0 < td_time_length D"
  then show "(egcno_train_epoch X D w = Inl NotImplementedError) = td_edge_attr D"
    by (intro egcno_train_epoch_attr) simp_all
  from a show "(gclstm_train_epoch G D v = Inl NotImplementedError) = td_edge_attr D"
    by (intro gclstm_train_epoch_attr) simp_all
next
  assume a: "egcno_train_epoch X D w = Inr s"
  note e = egcno_train_epoch_Inr[OF a]
  then have ok: "\<forall>e\<in>set (ts_steps s). egcno_step_ok X D (num_nodes_of D) e"
    by (simp add: list_all_iff)
  from e have "map st_idx (ts_steps s) = [0 ..< td_time_length D]" "0 < td_time_length D"
    by simp_all
  with map_idx_upt[of st_idx "ts_steps s" "td_time_length D"] have "ts_steps s \<noteq> []" by auto
  then obtain e0 where "e0 \<in> set (ts_steps s)" by (cases "ts_steps s") auto
  with ok show "\<not> td_edge_attr D" by (auto simp: egcno_step_ok_def)
  from ok show "\<forall>e\<in>set (ts_steps s). st_weight e = replicate (length (st_fed e)) 1"
    by (simp add: egcno_step_ok_def)
next
  assume a: "gclstm_train_epoch G D v = Inr g"
  note e = gclstm_train_epoch_Inr[OF a]
  then have ok: "\<forall>e\<in>set (gt_steps g). gclstm_step_ok G D (num_nodes_of D) e"
    by (simp add: list_all_iff)
  from e have "map gs_idx (gt_steps g) = [0 ..< td_time_length D]" "0 < td_time_length D"
    by simp_all
  with map_idx_upt[of gs_idx "gt_steps g" "td_time_length D"] have "gt_steps g \<noteq> []" by auto
  then obtain e0 where "e0 \<in> set (gt_steps g)" by (cases "gt_steps g") auto
  with ok show "\<not> td_edge_attr D" by (auto simp: gclstm_step_ok_def)
  from ok show "\<forall>e\<in>set (gt_steps g). gs_weight e = replicate (length (gs_fed e)) 1"
    by (simp add: gclstm_step_ok_def)
next
  assume a: "egcno_eval_split X sp E N w h = Inr es"
  note e = egcno_eval_split_Inr[OF a]
  from e show "\<not> ed_edge_attr E" by simp
  from e show "\<forall>e\<in>set (es_steps es). ev_weight e = replicate (length (ev_fed e)) 1" by simp
qed


theorem edge_attr_guard_witness:
  "egcno_train_feed demo_externals demo_train 0 1 = Inr ([(0, 1)], [1], 1, 0) \<and>
   egcno_train_feed demo_externals demo_train_attr 0 1 = Inl NotImplementedError \<and>
   egcno_eval_advance demo_externals Val (val_split demo_dataset) 2 0 =
     Inr ([(0, 2)], [1], Tensor 1 False, 0) \<and>
   egcno_eval_advance demo_externals Val demo_val_attr 2 0 = Inl NotImplementedError \<and>
   gclstm_train_feed gc_demo_externals gc_demo_train 0 None [(1, 2), (2, 0)] 1 =
     Inr ([(0, 1)], [1], (1, 0), 0) \<and>
   gclstm_train_feed gc_demo_externals demo_train_attr 0 None [(2, 1)] 1 =
     Inl NotImplementedError \<and>
   gclstm_val_advance gc_demo_externals gc_demo_val 3 4 0 (Tensor 2 False, Tensor 0 False) =
     Inr (0, Tensor 1 True, Tensor 0 True) \<and>
   gclstm_val_advance gc_demo_externals gc_demo_val_attr 3 4 0 (Tensor 2 False, Tensor 0 False) =
     Inl NotImplementedError \<and>
   egcno_train_epoch demo_externals demo_train_attr 0 = Inl NotImplementedError \<and>
   gclstm_train_epoch gc_demo_externals demo_train_attr 0 = Inl NotImplementedError \<and>
   egcno_train_epoch demo_externals demo_train 0 \<noteq> Inl NotImplementedError \<and>
   gclstm_train_epoch gc_demo_externals gc_demo_train 0 \<noteq> Inl NotImplementedError \<and>
   map st_weight (ts_steps (projr (egcno_train_epoch demo_externals demo_train 0))) =
     [[1], [1]] \<and>
   map gs_weight (gt_steps (projr (gclstm_train_epoch gc_demo_externals gc_demo_train 0))) =
     [[1], [1], [1, 1]] \<and>
   map ev_weight (es_steps (projr (egcno_eval_split demo_externals Val (val_split demo_dataset)
     4 1 (Tensor 1 True)))) = [[1], [1]]"
proof -
  note A = edge_attr_guard[where D = demo_train_attr and t = 1 and fed = "[(0, 1)]"
      and X = demo_externals and w = 0 and E = demo_val_attr and k = 2 and prev = "[(0, 2)]"
      and sp = Val and pos = "[(2, 1)]" and fed' = "[(0, 1)]" and G = gc_demo_externals
      and v = 0 and hc = None and ts_min = 3 and k' = 4 and V = gc_demo_val_attr
      and prev' = "[(0, 1)]" and hc' = "(Tensor 2 False, Tensor 0 False)"]
  have hyp: "snapshot_at (td_edge_index demo_train_attr) (1 - 1) = Inr [(0, 1)]"
    "map_of (ed_edge_index demo_val_attr) 2 = Some [(0, 2)]"
    "(if (1::nat) = 0 then Inr [(2, 1)] else snapshot_at (td_edge_index demo_train_attr) (1 - 1)) =
       Inr [(0, 1)]"
    "(3::int) < 4 \<and> map_of (gd_edge_index gc_demo_val_attr) (4 - 1) = Some [(0, 1)]"
    "td_edge_index demo_train_attr \<noteq> [] \<and> 0 < td_time_length demo_train_attr"
    by (simp_all add: demo_train_attr_def demo_train_def demo_val_attr_def gc_demo_val_attr_def
        gc_demo_val_def snapshot_at_def)
  have attr: "td_edge_attr demo_train_attr" "ed_edge_attr demo_val_attr"
    "gd_edge_attr gc_demo_val_attr"
    by (simp_all add: demo_train_attr_def demo_val_attr_def gc_demo_val_attr_def)
  from A hyp(1) attr(1)
  have a1: "egcno_train_feed demo_externals demo_train_attr 0 1 = Inl NotImplementedError"
    by presburger
  from A hyp(2) attr(2)
  have a2: "egcno_eval_advance demo_externals Val demo_val_attr 2 0 = Inl NotImplementedError"
    by presburger
  from A hyp(3) attr(1)
  have a3: "gclstm_train_feed gc_demo_externals demo_train_attr 0 None [(2, 1)] 1 =
     Inl NotImplementedError"
    by presburger
  from A hyp(4) attr(3)
  have a4: "gclstm_val_advance gc_demo_externals gc_demo_val_attr 3 4 0
      (Tensor 2 False, Tensor 0 False) = Inl NotImplementedError"
    by presburger
  from A hyp(5) attr(1)
  have a5: "egcno_train_epoch demo_externals demo_train_attr 0 = Inl NotImplementedError"
    "gclstm_train_epoch gc_demo_externals demo_train_attr 0 = Inl NotImplementedError"
    by presburger+
  have b: "egcno_train_feed demo_externals demo_train 0 1 = Inr ([(0, 1)], [1], 1, 0)"
    "egcno_eval_advance demo_externals Val (val_split demo_dataset) 2 0 =
       Inr ([(0, 2)], [1], Tensor 1 False, 0)"
    "gclstm_train_feed gc_demo_externals gc_demo_train 0 None [(1, 2), (2, 0)] 1 =
       Inr ([(0, 1)], [1], (1, 0), 0)"
    "gclstm_val_advance gc_demo_externals gc_demo_val 3 4 0 (Tensor 2 False, Tensor 0 False) =
       Inr (0, Tensor 1 True, Tensor 0 True)"
    by (simp_all add: demo_eval_simps gc_demo_eval_simps)
  show ?thesis
    unfolding a1 a2 a3 a4 a5 b demo_train_epoch_0 gc_demo_train_epoch_0 demo_val_eval sum.sel
    by simp
qed

section \<open>Random negatives in the EvolveGCN-O training step\<close>

text \<open>
  Claim C9. In iteration \<open>t\<close> of a completed EvolveGCN-O training epoch the negative
  destinations are exactly what \<open>torch.randint(0, num_nodes, (E,))\<close> returns at the world
  the encoder call of that iteration left, with \<open>num_nodes\<close> the node count of the data
  set plus one and \<open>E\<close> the number of edges of snapshot \<open>t\<close>; the worlds are those the
  calls of the earlier iterations left one after the other. The draw goes to the decoder
  as it is, paired with the sources of the positive edges, and its scores enter the loss
  against target 0. The range drawn from is the range of ids the embedding accepts, which
  holds every positive destination and the extra id: on the concrete data the first
  epoch draws the true destination of every edge and the second draws the extra id.
\<close>

theorem egcno_negatives_unfiltered:
  assumes "egcno_train_epoch X D w = Inr s"
  shows "length (ts_steps s) = td_time_length D \<and>
    (\<forall>t<td_time_length D.
       (let e = ts_steps s ! t;
            w0 = foldl (egcno_step_next X (td_num_nodes D + 1)) (zero_grad X w)
                   (take t (ts_steps s));
            enc = model_fwd X w0 (st_fed e) (st_weight e);
            draw = randint X (snd enc) 0 (td_num_nodes D + 1) (length (st_pos e));
            pcall = link_pred X (snd draw) (fst enc) (map fst (st_pos e)) (map snd (st_pos e));
            ncall = link_pred X (snd pcall) (fst enc) (map fst (st_pos e)) (fst draw)
        in st_pos e = td_edge_index D ! t \<and>
           st_neg_dst e = fst draw \<and>
           st_neg_out e = fst ncall \<and>
           st_loss e = criterion X (fst pcall) 1 + criterion X (fst ncall) 0 \<and>
           in_range (td_num_nodes D + 1) (map snd (st_pos e)) \<and>
           in_range (td_num_nodes D + 1) (fst draw)))"
proof -
  let ?N = "td_num_nodes D + 1"
  let ?xs = "ts_steps s"
  have N: "num_nodes_of D = ?N" by (simp add: num_nodes_of_def)
  note e = egcno_train_epoch_Inr[OF assms]
  note td = egcno_train_epoch_tied[OF assms, unfolded N]
  from e have idx: "map st_idx ?xs = [0 ..< td_time_length D]" by simp
  note m = map_idx_upt[OF idx]
  have step: "(let e = ?xs ! t;
            w0 = foldl (egcno_step_next X ?N) (zero_grad X w) (take t ?xs);
            enc = model_fwd X w0 (st_fed e) (st_weight e);
            draw = randint X (snd enc) 0 ?N (length (st_pos e));
            pcall = link_pred X (snd draw) (fst enc) (map fst (st_pos e)) (map snd (st_pos e));
            ncall = link_pred X (snd pcall) (fst enc) (map fst (st_pos e)) (fst draw)
        in st_pos e = td_edge_index D ! t \<and>
           st_neg_dst e = fst draw \<and>
           st_neg_out e = fst ncall \<and>
           st_loss e = criterion X (fst pcall) 1 + criterion X (fst ncall) 0 \<and>
           in_range ?N (map snd (st_pos e)) \<and>
           in_range ?N (fst draw))"
    if t: "t < td_time_length D" for t
  proof -
    from t m have tl: "t < length ?xs" by simp
    then have "?xs ! t \<in> set ?xs" by simp
    with e have ok: "egcno_step_ok X D ?N (?xs ! t)" by (simp add: list_all_iff N)
    from m t have i: "st_idx (?xs ! t) = t" by simp
    from td tl have tied: "egcno_step_tied X ?N
        (foldl (egcno_step_next X ?N) (zero_grad X w) (take t ?xs)) (?xs ! t)" by blast
    from ok have "st_pos (?xs ! t) = td_edge_index D ! st_idx (?xs ! t)"
      unfolding egcno_step_ok_def by blast
    with i have a1: "st_pos (?xs ! t) = td_edge_index D ! t" by simp
    from ok have a2:
      "st_loss (?xs ! t) = criterion X (st_pos_out (?xs ! t)) 1 + criterion X (st_neg_out (?xs ! t)) 0"
      "in_range ?N (map snd (st_pos (?xs ! t)))" "in_range ?N (st_neg_dst (?xs ! t))"
      unfolding egcno_step_ok_def by blast+
    note a = a1 a2
    from tied a show ?thesis
      unfolding egcno_step_tied_def Let_def
      by (auto split: prod.splits)
  qed
  from m step show ?thesis by blast
qed


theorem egcno_negatives_unfiltered_witness:
  "\<not> isl (egcno_train_epoch demo_externals demo_train 0) \<and>
   \<not> isl (egcno_train_epoch demo_externals demo_train 1) \<and>
   td_num_nodes demo_train = 3 \<and>
   length (ts_steps (projr (egcno_train_epoch demo_externals demo_train 0))) =
     td_time_length demo_train \<and>
   map st_pos (ts_steps (projr (egcno_train_epoch demo_externals demo_train 0))) =
     [[(0, 1)], [(2, 1)]] \<and>
   fst (randint demo_externals 0 0 (td_num_nodes demo_train + 1) 1) = [1] \<and>
   map st_neg_dst (ts_steps (projr (egcno_train_epoch demo_externals demo_train 0))) =
     [[1], [1]] \<and>
   fst (randint demo_externals 1 0 (td_num_nodes demo_train + 1) 1) = [3] \<and>
   map st_neg_dst (ts_steps (projr (egcno_train_epoch demo_externals demo_train 1))) =
     [[3], [3]] \<and>
   map st_loss (ts_steps (projr (egcno_train_epoch demo_externals demo_train 0))) =
     [criterion demo_externals 0 1 + criterion demo_externals 0 0,
      criterion demo_externals 0 1 + criterion demo_externals 0 0]"
proof -
  from egcno_negatives_unfiltered[OF demo_train_epoch_0]
  have l: "length (ts_steps (projr (egcno_train_epoch demo_externals demo_train 0))) =
     td_time_length demo_train"
    unfolding demo_train_epoch_0 sum.sel by blast
  have n: "td_num_nodes demo_train = 3" by (simp add: demo_train_def)
  have r: "fst (randint demo_externals 0 0 (td_num_nodes demo_train + 1) 1) = [1]"
    "fst (randint demo_externals 1 0 (td_num_nodes demo_train + 1) 1) = [3]"
    by (simp_all add: n demo_externals_def)
  show ?thesis
    unfolding l r unfolding demo_train_epoch_0 demo_train_epoch_1 sum.sel
    by (simp add: n demo_externals_def)
qed

section \<open>The loss figure the GC-LSTM script reports\<close>

text \<open>
  Claim C10. In a completed GC-LSTM training epoch, \<open>total_loss\<close> is the sum over the
  snapshots \<open>t\<close> of the loss accumulated through snapshot \<open>t - 1\<close> times the number of
  edges fed at \<open>t\<close>: the running loss is read before the criterion terms of \<open>t\<close> are
  added. The terms of the last snapshot therefore never enter it, and with a single
  snapshot both \<open>total_loss\<close> and the figure printed from it are 0.
\<close>

theorem gclstm_total_loss_lags:
  assumes "gclstm_train_epoch X D w = Inr s"
  shows "length (gt_steps s) = td_time_length D \<and>
     (\<forall>t<td_time_length D.
        gs_fed (gt_steps s ! t) = td_edge_index D ! (t - 1) \<and>
        gs_loss_before (gt_steps s ! t) = (\<Sum>u<t. gs_loss (gt_steps s ! u))) \<and>
     gt_total_loss s =
       (\<Sum>t<td_time_length D.
          (\<Sum>u<t. gs_loss (gt_steps s ! u)) * real (length (gs_fed (gt_steps s ! t)))) \<and>
     gclstm_reported_loss D s = gt_total_loss s / real (td_num_nodes D + 1) \<and>
     (td_time_length D = 1 \<longrightarrow> gt_total_loss s = 0 \<and> gclstm_reported_loss D s = 0)"
proof -
  note e = gclstm_train_epoch_Inr[OF assms]
  let ?xs = "gt_steps s"
  let ?T = "td_time_length D"
  from e have idx: "map gs_idx ?xs = [0 ..< ?T]" by simp
  note m = map_idx_upt[OF idx]
  from m have len: "length ?xs = ?T" by simp
  have before: "gs_loss_before (?xs ! t) = (\<Sum>u<t. gs_loss (?xs ! u))" if "t < ?T" for t
  proof -
    from e that len have "gs_loss_before (?xs ! t) = sum_list (map gs_loss (take t ?xs))" by simp
    also have "\<dots> = (\<Sum>u<t. gs_loss (?xs ! u))"
      using that len by (intro sum_list_take_nth) simp
    finally show ?thesis .
  qed
  have fed: "gs_fed (?xs ! t) = td_edge_index D ! (t - 1)" if "t < ?T" for t
  proof -
    from that len have "?xs ! t \<in> set ?xs" by simp
    with e have "gclstm_step_ok X D (num_nodes_of D) (?xs ! t)" by (simp add: list_all_iff)
    moreover from m that have "gs_idx (?xs ! t) = t" by simp
    ultimately show ?thesis by (simp add: gclstm_step_ok_def)
  qed
  have "gt_total_loss s = sum_list (map (\<lambda>e. gs_loss_before e * real (length (gs_fed e))) ?xs)"
    using e by simp
  also have "\<dots> = sum_list (map (\<lambda>e. gs_loss_before e * real (length (gs_fed e))) (take ?T ?xs))"
    using len by simp
  also have "\<dots> = (\<Sum>t<?T. gs_loss_before (?xs ! t) * real (length (gs_fed (?xs ! t))))"
    using len by (intro sum_list_take_nth) simp
  also have "\<dots> = (\<Sum>t<?T. (\<Sum>u<t. gs_loss (?xs ! u)) * real (length (gs_fed (?xs ! t))))"
    by (intro sum.cong) (simp_all add: before)
  finally have total: "gt_total_loss s =
      (\<Sum>t<?T. (\<Sum>u<t. gs_loss (?xs ! u)) * real (length (gs_fed (?xs ! t))))" .
  have rep: "gclstm_reported_loss D s = gt_total_loss s / real (td_num_nodes D + 1)"
    by (simp add: gclstm_reported_loss_def num_nodes_of_def)
  have one: "gt_total_loss s = 0 \<and> gclstm_reported_loss D s = 0" if "?T = 1"
    using total that by (simp add: rep)
  from len before fed total rep one show ?thesis by blast
qed

theorem gclstm_total_loss_lags_witness:
  "\<not> isl (gclstm_train_epoch gc_demo_externals gc_demo_train 0) \<and>
   \<not> isl (gclstm_train_epoch gc_demo_externals gc_single_train 0) \<and>
   td_time_length gc_demo_train = 3 \<and> td_time_length gc_single_train = 1 \<and>
   map gs_loss (gt_steps (projr (gclstm_train_epoch gc_demo_externals gc_demo_train 0))) = [1, 1, 1] \<and>
   map (\<lambda>e. length (gs_fed e))
     (gt_steps (projr (gclstm_train_epoch gc_demo_externals gc_demo_train 0))) = [1, 1, 2] \<and>
   gt_total_loss (projr (gclstm_train_epoch gc_demo_externals gc_demo_train 0)) = 0 * 1 + 1 * 1 + 2 * 2 \<and>
   gt_loss (projr (gclstm_train_epoch gc_demo_externals gc_single_train 0)) = 1 \<and>
   gt_total_loss (projr (gclstm_train_epoch gc_demo_externals gc_single_train 0)) = 0 \<and>
   gclstm_reported_loss gc_single_train
     (projr (gclstm_train_epoch gc_demo_externals gc_single_train 0)) = 0"
proof -
  note a = gclstm_total_loss_lags[OF gc_demo_train_epoch_0]
  note b = gclstm_total_loss_lags[OF gc_single_train_epoch_0]
  have T: "td_time_length gc_demo_train = 3" "td_time_length gc_single_train = 1"
    by (simp_all add: gc_demo_train_def gc_single_train_def)
  from b have "td_time_length gc_single_train = 1 \<longrightarrow>
      gclstm_reported_loss gc_single_train
        (projr (gclstm_train_epoch gc_demo_externals gc_single_train 0)) = 0"
    unfolding gc_single_train_epoch_0 sum.sel by blast
  with T have z: "gclstm_reported_loss gc_single_train
        (projr (gclstm_train_epoch gc_demo_externals gc_single_train 0)) = 0"
    by blast
  from a have "gt_total_loss (projr (gclstm_train_epoch gc_demo_externals gc_demo_train 0)) =
       (\<Sum>t<td_time_length gc_demo_train.
          (\<Sum>u<t. gs_loss (gt_steps (projr (gclstm_train_epoch gc_demo_externals gc_demo_train 0)) ! u)) *
          real (length (gs_fed (gt_steps (projr (gclstm_train_epoch gc_demo_externals gc_demo_train 0)) ! t))))"
    unfolding gc_demo_train_epoch_0 sum.sel by blast
  then have y: "gt_total_loss (projr (gclstm_train_epoch gc_demo_externals gc_demo_train 0)) =
      0 * 1 + 1 * 1 + 2 * 2"
    by (simp add: T gc_demo_train_epoch_0 lessThan_Suc numeral_3_eq_3)
  show ?thesis
    unfolding z y by (simp add: gc_demo_train_epoch_0 gc_single_train_epoch_0 T)
qed

end
